theory Spec2Isabelle
  imports Main "HOL-Library.AList"
begin

section \<open>JavaScript values, records and errors\<close>

text \<open>
  The values that attributes of stored records can hold. A record (a plain JavaScript
  object) is an association list from attribute names to values, in insertion order.
  Class names handed to the class-scoped operations are typed as strings, so the
  \<^verbatim>\<open>_.isString\<close> test of \<^verbatim>\<open>checkClass\<close> holds by typing; the class list handed to
  \<^verbatim>\<open>putItem\<close> is an arbitrary value, as in the source.
\<close>

datatype jsval =
    VUndefined
  | VNull
  | VBool bool
  | VNum int
  | VStr string
  | VArr "jsval list"

type_synonym item = "(string \<times> jsval) list"

type_synonym key = string

text \<open>
  Every \<^verbatim>\<open>throw new Error(...)\<close> of the source is one constructor; the names follow the
  error taxonomy of the specification. \<open>TypeError\<close> is the runtime error of JavaScript
  when a method is called on a value that has none; \<open>Raised\<close> is an error thrown by
  the caller's own code (a transaction body or a visitor); \<open>NotFound\<close> and
  \<open>AlreadyExists\<close> are raised by the table store.
\<close>

datatype error =
    InvalidArgument string
  | ClassMismatch
  | NotFound
  | AlreadyExists
  | VersionDowngrade
  | TransactionMisuse
  | TypeError
  | Raised string

definition attr :: "item \<Rightarrow> string \<Rightarrow> jsval" where
  "attr item n = (case map_of item n of Some v \<Rightarrow> v | None \<Rightarrow> VUndefined)"

text \<open>\<^verbatim>\<open>_.omit(item, name)\<close>: a copy of the record without the attribute.\<close>

definition omit :: "item \<Rightarrow> string \<Rightarrow> item" where
  "omit item n = AList.delete n item"

text \<open>JavaScript truthiness, as tested by \<^verbatim>\<open>!x\<close> and \<^verbatim>\<open>x && y\<close>.\<close>

fun truthy :: "jsval \<Rightarrow> bool" where
  "truthy VUndefined = False"
| "truthy VNull = False"
| "truthy (VBool b) = b"
| "truthy (VNum n) = (n \<noteq> 0)"
| "truthy (VStr s) = (s \<noteq> [])"
| "truthy (VArr xs) = True"

text \<open>
  \<^verbatim>\<open>Array.prototype.indexOf\<close> searches with strict equality, so a string is found only at
  an element that is the same string; \<^verbatim>\<open>String.prototype.indexOf\<close> is a substring search.
  Both return \<open>-1\<close> when nothing is found. Any other receiver has no such method (for
  \<^verbatim>\<open>undefined\<close> and \<^verbatim>\<open>null\<close> the property access itself fails): a TypeError.
\<close>

fun array_indexOf :: "jsval list \<Rightarrow> string \<Rightarrow> nat \<Rightarrow> int" where
  "array_indexOf [] k i = - 1"
| "array_indexOf (x # xs) k i = (if x = VStr k then int i else array_indexOf xs k (Suc i))"

fun string_indexOf :: "string \<Rightarrow> string \<Rightarrow> nat \<Rightarrow> int" where
  "string_indexOf [] k i = (if k = [] then int i else - 1)"
| "string_indexOf (c # cs) k i =
     (if take (length k) (c # cs) = k then int i else string_indexOf cs k (Suc i))"

fun indexOf :: "jsval \<Rightarrow> string \<Rightarrow> error + int" where
  "indexOf (VArr xs) k = Inr (array_indexOf xs k 0)"
| "indexOf (VStr s) k = Inr (string_indexOf s k 0)"
| "indexOf v k = Inl TypeError"

section \<open>The schema builder\<close>

text \<open>
  A key component of an index is a property name or a function of the record with a
  display name. A declared index is a bare property (or function), an array of them, or
  a plain object \<^verbatim>\<open>{properties, projection}\<close> whose \<^verbatim>\<open>properties\<close> is again one component
  or an array. A class is declared by its name alone or by \<^verbatim>\<open>{name, indexes}\<close>.
\<close>

datatype key_component =
    Named string
  | Derived string "item \<Rightarrow> error + jsval"

datatype properties_decl =
    One key_component
  | Many "key_component list"

datatype index_decl =
    Bare properties_decl
  | Spec properties_decl "string list option"

datatype class_decl =
    ClassName string
  | ClassDecl string "index_decl list option"

record index =
  idx_properties :: "key_component list"
  idx_projection :: "string list option"

definition makeIndexName :: "string \<Rightarrow> string" where
  "makeIndexName klass = klass @ ''?''"

text \<open>
  The key function the creator builds for a class:
  \<^verbatim>\<open>item._classes && item._classes.indexOf(name) !== -1 ? true : undefined\<close>.
\<close>

definition class_fn :: "string \<Rightarrow> item \<Rightarrow> error + jsval" where
  "class_fn name item =
     (if truthy (attr item ''_classes'')
      then (case indexOf (attr item ''_classes'') name of
              Inl e \<Rightarrow> Inl e
            | Inr i \<Rightarrow> Inr (if i \<noteq> - 1 then VBool True else VUndefined))
      else Inr VUndefined)"

text \<open>
  The body of the inner \<^verbatim>\<open>indexes.forEach\<close>: normalise the declaration to an object,
  its properties to an array, put the class function in front, append the reserved
  attribute to a projection, and push the index on the table's list.
\<close>

definition add_index :: "key_component \<Rightarrow> index list \<Rightarrow> index_decl \<Rightarrow> index list" where
  "add_index fn table_indexes decl =
     (let (props, projection) = (case decl of Bare p \<Rightarrow> (p, None) | Spec p pr \<Rightarrow> (p, pr));
          properties = (case props of One c \<Rightarrow> [c] | Many cs \<Rightarrow> cs);
          properties = fn # properties;
          projection = (case projection of None \<Rightarrow> None | Some pr \<Rightarrow> Some (pr @ [''_classes'']))
      in table_indexes @ [\<lparr>idx_properties = properties, idx_projection = projection\<rparr>])"

text \<open>
  The body of the outer \<^verbatim>\<open>classes.forEach\<close>: the declared indexes (none when the class
  is given by name or declares none), with an empty index put in front for the class
  itself.
\<close>

definition add_class :: "index list \<Rightarrow> class_decl \<Rightarrow> index list" where
  "add_class table_indexes klass =
     (let (name, declared) = (case klass of ClassName n \<Rightarrow> (n, None) | ClassDecl n d \<Rightarrow> (n, d));
          fn = Derived (makeIndexName name) (class_fn name);
          indexes = (case declared of None \<Rightarrow> [] | Some ds \<Rightarrow> ds);
          indexes = Bare (Many []) # indexes
      in foldl (add_index fn) table_indexes indexes)"

definition build_indexes :: "class_decl list \<Rightarrow> index list" where
  "build_indexes classes = foldl add_class [] classes"

section \<open>The object database and its state\<close>

text \<open>
  An object of the class \<^verbatim>\<open>KindaObjectDB\<close>: the root object built by the creator, or an
  object derived from it with \<^verbatim>\<open>Object.create\<close> inside a transaction. A derived object
  has an identity of its own, its own \<^verbatim>\<open>database\<close> handle, and inherits every other
  field from the root.
\<close>

datatype obj_id = RootObject | TxObject nat

datatype db_handle = Database | Transaction nat

record odb =
  self :: obj_id
  odb_name :: string
  objectDatabase :: obj_id
  database :: db_handle
  db_indexes :: "index list"

record creator_options =
  opt_name :: string
  opt_url :: string
  opt_classes :: "class_decl list"

text \<open>
  The creator. A missing name or url is the empty string here (both are falsy). The
  single table \<^verbatim>\<open>Objects\<close> is handed to the table store with the index list built from
  the class declarations.
\<close>

definition creator :: "creator_options \<Rightarrow> error + odb" where
  "creator options =
     (if opt_name options = [] then Inl (InvalidArgument ''name is missing'')
      else if opt_url options = [] then Inl (InvalidArgument ''url is missing'')
      else Inr \<lparr>self = RootObject, odb_name = opt_name options, objectDatabase = RootObject,
                database = Database, db_indexes = build_indexes (opt_classes options)\<rparr>)"

definition isInsideTransaction :: "odb \<Rightarrow> bool" where
  "isInsideTransaction this = (self this \<noteq> objectDatabase this)"

record lifecycle_record =
  lr_name :: string
  lr_version :: int

datatype event =
    Emitted string
  | DatabaseInitialized
  | TablesMarkedAsRemovedRemoved
  | DatabaseLocked
  | DatabaseUnlocked
  | RecordPut string int
  | LogCreated string
  | LogUpgraded string int

text \<open>Options of the single-key operations; \<open>None\<close> is a field that is not given.\<close>

record item_options =
  errorIfMissing :: "bool option"
  createIfMissing :: "bool option"
  errorIfExists :: "bool option"

text \<open>
  Options of the query operations, an object the caller owns and the operations mutate:
  it lives in a heap, and so does the query object it refers to.
\<close>

record find_options =
  fo_query :: "nat option"
  fo_order :: "jsval option"
  fo_start :: "jsval option"
  fo_startAfter :: "jsval option"
  fo_end :: "jsval option"
  fo_endBefore :: "jsval option"
  fo_reverse :: "jsval option"
  fo_properties :: "jsval option"
  fo_limit :: "nat option"
  fo_batchSize :: "nat option"

text \<open>
  The state the operations read and change: the two lifecycle flags of the root object,
  the record store holding one lifecycle record per database name, the shared table, the
  number of physical transactions opened so far, the notifications emitted and calls made
  to the table store's lifecycle interface (in order), and the heap of option objects
  and query objects with the next free reference.
\<close>

record state =
  hasBeenInitialized :: bool
  isInitializing :: bool
  record_store :: "string \<rightharpoonup> lifecycle_record"
  table :: "(key \<times> item) list"
  tx_count :: nat
  trace :: "event list"
  options_heap :: "nat \<rightharpoonup> find_options"
  query_heap :: "nat \<rightharpoonup> (string \<times> jsval) list"
  next_ref :: nat

type_synonym 'a op = "state \<Rightarrow> (error + 'a) \<times> state"

definition ret :: "'a \<Rightarrow> 'a op" where
  "ret v s = (Inr v, s)"

definition throw :: "error \<Rightarrow> 'a op" where
  "throw e s = (Inl e, s)"

definition andThen :: "'a op \<Rightarrow> ('a \<Rightarrow> 'b op) \<Rightarrow> 'b op" where
  "andThen m f s = (case m s of (Inl e, s') \<Rightarrow> (Inl e, s') | (Inr v, s') \<Rightarrow> f v s')"

text \<open>\<^verbatim>\<open>try { m } finally { c }\<close>: the cleanup runs on both exits.\<close>

definition tryFinally :: "'a op \<Rightarrow> unit op \<Rightarrow> 'a op" where
  "tryFinally m c s =
     (case m s of (r, s') \<Rightarrow>
        (case c s' of (Inl e, s'') \<Rightarrow> (Inl e, s'') | (Inr u, s'') \<Rightarrow> (r, s'')))"

definition emit :: "string \<Rightarrow> unit op" where
  "emit n s = (Inr (), s\<lparr>trace := trace s @ [Emitted n]\<rparr>)"

definition log_info :: "event \<Rightarrow> unit op" where
  "log_info e s = (Inr (), s\<lparr>trace := trace s @ [e]\<rparr>)"

section \<open>The table store\<close>

text \<open>
  Modelled from the spec: the table store (the package \<^verbatim>\<open>kinda-db\<close> and the record store
  under it) is an external collaborator whose code is not among the sources. The
  definitions of this section follow the interface the specification gives for it:
  single-key get, put and delete with the options \<^verbatim>\<open>errorIfMissing\<close> (default true),
  \<^verbatim>\<open>createIfMissing\<close> (default true) and \<^verbatim>\<open>errorIfExists\<close> (default false); predicate
  queries; a transaction that commits when its body returns and rolls back and re-raises
  when its body fails; a database lock; and a record store with get and put. One
  physical transaction is active at a time, so a transaction is the body run on the
  table with the table restored when the body fails. Of the query options the model
  reads \<^verbatim>\<open>query\<close> and \<^verbatim>\<open>limit\<close>; it scans the table in its stored order.

  A put with \<^verbatim>\<open>errorIfExists\<close> is an insert: it fails on a key that is present and
  stores the value otherwise, whatever \<^verbatim>\<open>createIfMissing\<close> says. The source relies on
  this: \<^verbatim>\<open>saveObjectDatabaseRecord(record, tr, true)\<close> creates the lifecycle record with
  \<^verbatim>\<open>{errorIfExists: true, createIfMissing: false}\<close>.
\<close>

text \<open>The value of an option, or its default when the option is not given.\<close>

definition given_or :: "bool \<Rightarrow> bool option \<Rightarrow> bool" where
  "given_or d v = (case v of None \<Rightarrow> d | Some b \<Rightarrow> b)"

definition db_initializeDatabase :: "unit op" where
  "db_initializeDatabase s = (Inr (), s\<lparr>trace := trace s @ [DatabaseInitialized]\<rparr>)"

definition db_removeTablesMarkedAsRemoved :: "unit op" where
  "db_removeTablesMarkedAsRemoved s =
     (Inr (), s\<lparr>trace := trace s @ [TablesMarkedAsRemovedRemoved]\<rparr>)"

definition db_lockDatabase :: "unit op" where
  "db_lockDatabase s = (Inr (), s\<lparr>trace := trace s @ [DatabaseLocked]\<rparr>)"

definition db_unlockDatabase :: "unit op" where
  "db_unlockDatabase s = (Inr (), s\<lparr>trace := trace s @ [DatabaseUnlocked]\<rparr>)"

definition db_getItem :: "db_handle \<Rightarrow> key \<Rightarrow> item_options \<Rightarrow> item option op" where
  "db_getItem h k options s =
     (case map_of (table s) k of
        Some item \<Rightarrow> (Inr (Some item), s)
      | None \<Rightarrow>
          if given_or True (errorIfMissing options) then (Inl NotFound, s) else (Inr None, s))"

definition db_putItem :: "db_handle \<Rightarrow> key \<Rightarrow> item \<Rightarrow> item_options \<Rightarrow> unit op" where
  "db_putItem h k item options s =
     (case map_of (table s) k of
        Some old \<Rightarrow>
          if given_or False (errorIfExists options) then (Inl AlreadyExists, s)
          else (Inr (), s\<lparr>table := AList.update k item (table s)\<rparr>)
      | None \<Rightarrow>
          if given_or False (errorIfExists options) \<or> given_or True (createIfMissing options)
          then (Inr (), s\<lparr>table := AList.update k item (table s)\<rparr>)
          else (Inl NotFound, s))"

definition db_deleteItem :: "db_handle \<Rightarrow> key \<Rightarrow> item_options \<Rightarrow> bool op" where
  "db_deleteItem h k options s =
     (case map_of (table s) k of
        Some item \<Rightarrow> (Inr True, s\<lparr>table := AList.delete k (table s)\<rparr>)
      | None \<Rightarrow>
          if given_or True (errorIfMissing options) then (Inl NotFound, s) else (Inr False, s))"

text \<open>
  A physical transaction: it gets the next handle number, runs the body, and on failure
  restores the table it started from and re-raises the body's error.
\<close>

definition db_transaction :: "(nat \<Rightarrow> 'a op) \<Rightarrow> 'a op" where
  "db_transaction body s =
     (let h = tx_count s; s0 = s\<lparr>tx_count := Suc h\<rparr>
      in case body h s0 of
           (Inr v, s') \<Rightarrow> (Inr v, s')
         | (Inl e, s') \<Rightarrow> (Inl e, s'\<lparr>table := table s0\<rparr>))"

definition store_get :: "string \<Rightarrow> bool \<Rightarrow> lifecycle_record option op" where
  "store_get n errIfMissing s =
     (case record_store s n of
        Some r \<Rightarrow> (Inr (Some r), s)
      | None \<Rightarrow> if errIfMissing then (Inl NotFound, s) else (Inr None, s))"

definition store_put :: "string \<Rightarrow> lifecycle_record \<Rightarrow> bool \<Rightarrow> bool \<Rightarrow> unit op" where
  "store_put n r errIfExists createIfMiss s =
     (let stored = s\<lparr>record_store := (record_store s)(n \<mapsto> r),
                     trace := trace s @ [RecordPut n (lr_version r)]\<rparr>
      in case record_store s n of
           Some old \<Rightarrow> if errIfExists then (Inl AlreadyExists, s) else (Inr (), stored)
         | None \<Rightarrow> if errIfExists \<or> createIfMiss then (Inr (), stored) else (Inl NotFound, s))"

definition store_transaction :: "'a op \<Rightarrow> 'a op" where
  "store_transaction body s =
     (case body s of
        (Inr v, s') \<Rightarrow> (Inr v, s')
      | (Inl e, s') \<Rightarrow> (Inl e, s'\<lparr>record_store := record_store s\<rparr>))"

text \<open>
  Queries. A reference the heap does not hold reads as an empty object (JavaScript has
  no such reference). A key of the query names an index function by its display name,
  or else an attribute; a record satisfies the query when every key evaluates to the
  value the query gives for it.
\<close>

definition no_find_options :: find_options where
  "no_find_options =
     \<lparr>fo_query = None, fo_order = None, fo_start = None, fo_startAfter = None,
      fo_end = None, fo_endBefore = None, fo_reverse = None, fo_properties = None,
      fo_limit = None, fo_batchSize = None\<rparr>"

definition options_at :: "state \<Rightarrow> nat \<Rightarrow> find_options" where
  "options_at s r = (case options_heap s r of Some opts \<Rightarrow> opts | None \<Rightarrow> no_find_options)"

definition query_at :: "state \<Rightarrow> nat \<Rightarrow> (string \<times> jsval) list" where
  "query_at s q = (case query_heap s q of Some entries \<Rightarrow> entries | None \<Rightarrow> [])"

fun find_derived :: "key_component list \<Rightarrow> string \<Rightarrow> (item \<Rightarrow> error + jsval) option" where
  "find_derived [] n = None"
| "find_derived (Named p # cs) n = find_derived cs n"
| "find_derived (Derived d f # cs) n = (if d = n then Some f else find_derived cs n)"

definition key_value :: "index list \<Rightarrow> string \<Rightarrow> item \<Rightarrow> error + jsval" where
  "key_value idxs n item =
     (case find_derived (concat (map idx_properties idxs)) n of
        Some f \<Rightarrow> f item
      | None \<Rightarrow> Inr (attr item n))"

definition satisfies :: "index list \<Rightarrow> (string \<times> jsval) list \<Rightarrow> item \<Rightarrow> bool" where
  "satisfies idxs q item = list_all (\<lambda>(n, v). key_value idxs n item = Inr v) q"

definition db_select :: "index list \<Rightarrow> nat \<Rightarrow> state \<Rightarrow> (key \<times> item) list" where
  "db_select idxs r s =
     (let options = options_at s r;
          q = (case fo_query options of None \<Rightarrow> [] | Some qr \<Rightarrow> query_at s qr);
          hits = filter (\<lambda>(k, item). satisfies idxs q item) (table s)
      in case fo_limit options of None \<Rightarrow> hits | Some n \<Rightarrow> take n hits)"

definition db_findItems :: "db_handle \<Rightarrow> index list \<Rightarrow> nat \<Rightarrow> (key \<times> item) list op" where
  "db_findItems h idxs r s = (Inr (db_select idxs r s), s)"

definition db_countItems :: "db_handle \<Rightarrow> index list \<Rightarrow> nat \<Rightarrow> nat op" where
  "db_countItems h idxs r s = (Inr (length (db_select idxs r s)), s)"

fun for_each :: "('a \<Rightarrow> unit op) \<Rightarrow> 'a list \<Rightarrow> unit op" where
  "for_each f [] s = (Inr (), s)"
| "for_each f (x # xs) s =
     (case f x s of (Inl e, s') \<Rightarrow> (Inl e, s') | (Inr u, s') \<Rightarrow> for_each f xs s')"

definition db_forEachItems ::
  "db_handle \<Rightarrow> index list \<Rightarrow> nat \<Rightarrow> (key \<times> item \<Rightarrow> unit op) \<Rightarrow> unit op" where
  "db_forEachItems h idxs r visit s = for_each visit (db_select idxs r s) s"

text \<open>
  The specification: a delete per visited item, accumulating and returning the total
  deleted count.
\<close>

fun delete_each :: "db_handle \<Rightarrow> (key \<times> item) list \<Rightarrow> nat \<Rightarrow> nat op" where
  "delete_each h [] n s = (Inr n, s)"
| "delete_each h (x # xs) n s =
     (case db_deleteItem h (fst x)
             \<lparr>errorIfMissing = Some False, createIfMissing = None, errorIfExists = None\<rparr> s of
        (Inl e, s') \<Rightarrow> (Inl e, s')
      | (Inr b, s') \<Rightarrow> delete_each h xs (if b then Suc n else n) s')"

definition db_findAndDeleteItems :: "db_handle \<Rightarrow> index list \<Rightarrow> nat \<Rightarrow> nat op" where
  "db_findAndDeleteItems h idxs r s = delete_each h (db_select idxs r s) 0 s"

text \<open>
  The query operations of the module hand the caller's options object itself to the
  table store. What the store does with that object is not in the sources, so for the
  query operations the store is a parameter: its four query functions, each taking the
  handle, the index list of the table and the reference of the options object.
  \<open>modelled_store\<close> is the store of this section, which reads the object and never
  writes it.
\<close>

record table_store =
  st_findItems :: "db_handle \<Rightarrow> index list \<Rightarrow> nat \<Rightarrow> (key \<times> item) list op"
  st_countItems :: "db_handle \<Rightarrow> index list \<Rightarrow> nat \<Rightarrow> nat op"
  st_forEachItems :: "db_handle \<Rightarrow> index list \<Rightarrow> nat \<Rightarrow> (key \<times> item \<Rightarrow> unit op) \<Rightarrow> unit op"
  st_findAndDeleteItems :: "db_handle \<Rightarrow> index list \<Rightarrow> nat \<Rightarrow> nat op"

definition modelled_store :: table_store where
  "modelled_store =
     \<lparr>st_findItems = db_findItems, st_countItems = db_countItems,
      st_forEachItems = db_forEachItems, st_findAndDeleteItems = db_findAndDeleteItems\<rparr>"

section \<open>The lifecycle manager\<close>

definition VERSION :: int where
  "VERSION = 1"

text \<open>
  \<^verbatim>\<open>loadObjectDatabaseRecord(tr = this.store, errorIfMissing = true)\<close> and
  \<^verbatim>\<open>saveObjectDatabaseRecord(record, tr = this.store, errorIfExists)\<close>: the record is kept
  under the key made of the database name and \<^verbatim>\<open>$ObjectDatabase\<close>. An \<^verbatim>\<open>errorIfExists\<close>
  that is not given is falsy, so \<^verbatim>\<open>createIfMissing\<close> is then true.
\<close>

definition loadObjectDatabaseRecord :: "odb \<Rightarrow> bool \<Rightarrow> lifecycle_record option op" where
  "loadObjectDatabaseRecord this errIfMissing = store_get (odb_name this) errIfMissing"

definition saveObjectDatabaseRecord :: "odb \<Rightarrow> lifecycle_record \<Rightarrow> bool \<Rightarrow> unit op" where
  "saveObjectDatabaseRecord this r errIfExists =
     store_put (odb_name this) r errIfExists (\<not> errIfExists)"

definition createObjectDatabaseIfDoesNotExist :: "odb \<Rightarrow> bool op" where
  "createObjectDatabaseIfDoesNotExist this =
     store_transaction
       (andThen (loadObjectDatabaseRecord this False) (\<lambda>found.
          case found of
            Some r \<Rightarrow> ret False
          | None \<Rightarrow>
              andThen (saveObjectDatabaseRecord this
                         \<lparr>lr_name = odb_name this, lr_version = VERSION\<rparr> True) (\<lambda>u.
              andThen (emit ''didCreate'') (\<lambda>u.
              andThen (log_info (LogCreated (odb_name this))) (\<lambda>u.
              ret True)))))"

text \<open>The version-specific steps: \<^verbatim>\<open>if (version < 2) { // ... }\<close>, an empty block.\<close>

definition upgrade_steps :: "int \<Rightarrow> unit op" where
  "upgrade_steps version = (if version < 2 then ret () else ret ())"

definition upgradeObjectDatabase :: "odb \<Rightarrow> unit op" where
  "upgradeObjectDatabase this =
     andThen (loadObjectDatabaseRecord this True) (\<lambda>loaded.
       case loaded of
         None \<Rightarrow> throw TypeError
       | Some r \<Rightarrow>
           (let version = lr_version r
            in if version = VERSION then ret ()
               else if version > VERSION then throw VersionDowngrade
               else
                 andThen (emit ''upgradeDidStart'') (\<lambda>u.
                 andThen (upgrade_steps version) (\<lambda>u.
                 andThen (saveObjectDatabaseRecord this (r\<lparr>lr_version := VERSION\<rparr>) False) (\<lambda>u.
                 andThen (log_info (LogUpgraded (odb_name this) VERSION)) (\<lambda>u.
                 emit ''upgradeDidStop''))))))"

definition initializeObjectDatabase :: "odb \<Rightarrow> unit op" where
  "initializeObjectDatabase this s =
     (if hasBeenInitialized s then (Inr (), s)
      else if isInitializing s then (Inr (), s)
      else if isInsideTransaction this then (Inl TransactionMisuse, s)
      else
        tryFinally
          (andThen db_initializeDatabase (\<lambda>u.
           andThen (createObjectDatabaseIfDoesNotExist this) (\<lambda>hasBeenCreated.
           andThen (if hasBeenCreated then db_removeTablesMarkedAsRemoved
                    else andThen db_lockDatabase (\<lambda>u.
                           tryFinally (upgradeObjectDatabase this) db_unlockDatabase)) (\<lambda>u.
           andThen (\<lambda>s'. (Inr (), s'\<lparr>hasBeenInitialized := True\<rparr>)) (\<lambda>u.
           emit ''didInitialize'')))))
          (\<lambda>s'. (Inr (), s'\<lparr>isInitializing := False\<rparr>))
          (s\<lparr>isInitializing := True\<rparr>))"

section \<open>The transaction scope manager\<close>

text \<open>
  \<^verbatim>\<open>Object.create(this)\<close> followed by \<^verbatim>\<open>transaction.database = tr\<close>: a new object for the
  physical transaction with handle number \<open>h\<close>. The lifecycle flags are read through
  the prototype chain, so they are those of the root and live in the state. The second
  argument of \<^verbatim>\<open>transaction\<close>, options handed on to the table store, is left out.
\<close>

definition derive :: "odb \<Rightarrow> nat \<Rightarrow> odb" where
  "derive this h = this\<lparr>self := TxObject h, database := Transaction h\<rparr>"

definition transaction :: "odb \<Rightarrow> (odb \<Rightarrow> 'a op) \<Rightarrow> 'a op" where
  "transaction this fn =
     (if isInsideTransaction this then fn this
      else andThen (initializeObjectDatabase this) (\<lambda>u.
             db_transaction (\<lambda>h. fn (derive this h))))"

section \<open>The class-scoped operations\<close>

record stored_item =
  item_classes :: jsval
  item_value :: item


text \<open>
  \<^verbatim>\<open>checkClass\<close>: the class is a string by its type; it is refused when it is empty.
\<close>

definition checkClass :: "string \<Rightarrow> error + unit" where
  "checkClass klass =
     (if klass = [] then Inl (InvalidArgument ''class parameter is missing or empty'')
      else Inr ())"

definition getItem :: "odb \<Rightarrow> string \<Rightarrow> key \<Rightarrow> item_options \<Rightarrow> stored_item option op" where
  "getItem this klass k options =
     andThen (\<lambda>s. (checkClass klass, s)) (\<lambda>u.
     andThen (initializeObjectDatabase this) (\<lambda>u.
     andThen (db_getItem (database this) k options) (\<lambda>found.
       case found of
         None \<Rightarrow> ret None
       | Some item \<Rightarrow>
           (let classes = attr item ''_classes''
            in case indexOf classes klass of
                 Inl e \<Rightarrow> throw e
               | Inr i \<Rightarrow>
                   if i = - 1 then throw ClassMismatch
                   else ret (Some \<lparr>item_classes = classes,
                                    item_value = omit item ''_classes''\<rparr>)))))"

definition putItem :: "odb \<Rightarrow> jsval \<Rightarrow> key \<Rightarrow> item \<Rightarrow> item_options \<Rightarrow> unit op" where
  "putItem this classes k item options =
     (case classes of
        VArr cs \<Rightarrow>
          if cs = [] then throw (InvalidArgument ''classes parameter is empty'')
          else
            (let item = AList.update ''_classes'' classes item
             in andThen (initializeObjectDatabase this) (\<lambda>u.
                  db_putItem (database this) k item options))
      | other \<Rightarrow> throw (InvalidArgument ''classes parameter is invalid''))"

definition deleteItem :: "odb \<Rightarrow> string \<Rightarrow> key \<Rightarrow> item_options \<Rightarrow> bool op" where
  "deleteItem this klass k options =
     andThen (\<lambda>s. (checkClass klass, s)) (\<lambda>u.
       transaction this (\<lambda>tr.
         andThen (db_getItem (database tr) k options) (\<lambda>found.
           case found of
             None \<Rightarrow> ret False
           | Some item \<Rightarrow>
               (case indexOf (attr item ''_classes'') klass of
                  Inl e \<Rightarrow> throw e
                | Inr i \<Rightarrow>
                    if i = - 1 then throw ClassMismatch
                    else db_deleteItem (database tr) k
                           \<lparr>errorIfMissing = None, createIfMissing = None,
                            errorIfExists = None\<rparr>))))"

text \<open>
  \<^verbatim>\<open>injectClassInQueryOption(klass, options = {})\<close>: a fresh options object when none is
  given, a fresh query object when the options have none (or a falsy one), and then the
  assignment \<^verbatim>\<open>options.query[this.makeIndexName(klass)] = true\<close> on the query object
  itself. It returns the options object.
\<close>

definition injectClassInQueryOption :: "string \<Rightarrow> nat option \<Rightarrow> nat op" where
  "injectClassInQueryOption klass options s =
     (case checkClass klass of
        Inl e \<Rightarrow> (Inl e, s)
      | Inr u \<Rightarrow>
          (let (r, s1) =
                 (case options of
                    Some r \<Rightarrow> (r, s)
                  | None \<Rightarrow>
                      (next_ref s,
                       s\<lparr>options_heap := (options_heap s)(next_ref s \<mapsto> no_find_options),
                         next_ref := Suc (next_ref s)\<rparr>));
               (q, s2) =
                 (case fo_query (options_at s1 r) of
                    Some q \<Rightarrow> (q, s1)
                  | None \<Rightarrow>
                      (next_ref s1,
                       s1\<lparr>query_heap := (query_heap s1)(next_ref s1 \<mapsto> []),
                          options_heap :=
                            (options_heap s1)(r \<mapsto> (options_at s1 r)\<lparr>fo_query := Some (next_ref s1)\<rparr>),
                          next_ref := Suc (next_ref s1)\<rparr>))
           in (Inr r,
               s2\<lparr>query_heap :=
                    (query_heap s2)(q \<mapsto> AList.update (makeIndexName klass) (VBool True)
                                            (query_at s2 q))\<rparr>)))"





definition findAndDeleteItems :: "table_store \<Rightarrow> odb \<Rightarrow> string \<Rightarrow> nat option \<Rightarrow> nat op" where
  "findAndDeleteItems store this klass options =
     andThen (injectClassInQueryOption klass options) (\<lambda>options.
     andThen (initializeObjectDatabase this) (\<lambda>u.
     st_findAndDeleteItems store (database this) (db_indexes this) options))"

section \<open>The index list in the words of the specification\<close>

text \<open>
  The membership predicate of a class, and the parts of a declaration as the
  specification names them: the name of a class, its declared indexes, and the declared
  properties and projection of an index.
\<close>

definition membership_predicate :: "string \<Rightarrow> key_component" where
  "membership_predicate name = Derived (makeIndexName name) (class_fn name)"

fun class_name :: "class_decl \<Rightarrow> string" where
  "class_name (ClassName n) = n"
| "class_name (ClassDecl n d) = n"

fun declared_indexes :: "class_decl \<Rightarrow> index_decl list" where
  "declared_indexes (ClassName n) = []"
| "declared_indexes (ClassDecl n None) = []"
| "declared_indexes (ClassDecl n (Some ds)) = ds"

fun declared_properties :: "index_decl \<Rightarrow> key_component list" where
  "declared_properties (Bare (One c)) = [c]"
| "declared_properties (Bare (Many cs)) = cs"
| "declared_properties (Spec (One c) pr) = [c]"
| "declared_properties (Spec (Many cs) pr) = cs"

fun declared_projection :: "index_decl \<Rightarrow> string list option" where
  "declared_projection (Bare p) = None"
| "declared_projection (Spec p pr) = pr"

definition spec_index :: "string \<Rightarrow> index_decl \<Rightarrow> index" where
  "spec_index name d =
     \<lparr>idx_properties = membership_predicate name # declared_properties d,
      idx_projection = map_option (\<lambda>pr. pr @ [''_classes'']) (declared_projection d)\<rparr>"

definition spec_class_indexes :: "class_decl \<Rightarrow> index list" where
  "spec_class_indexes klass =
     \<lparr>idx_properties = [membership_predicate (class_name klass)], idx_projection = None\<rparr>
     # map (spec_index (class_name klass)) (declared_indexes klass)"

section \<open>A database to run the operations on\<close>

text \<open>
  The database of the test suite: the classes \<^verbatim>\<open>Account\<close>, \<^verbatim>\<open>Person\<close> and \<^verbatim>\<open>Company\<close>
  with their indexes; the state before the first operation; the state after the lazy
  initialisation has created the lifecycle record; and that state with one item stored.
\<close>

definition example_options :: creator_options where
  "example_options =
     \<lparr>opt_name = ''Test'', opt_url = ''mysql://test@localhost/test'',
      opt_classes =
        [ClassDecl ''Account''
           (Some [Bare (One (Named ''accountNumber'')), Bare (One (Named ''country''))]),
         ClassDecl ''Person''
           (Some [Bare (One (Named ''accountNumber'')), Bare (One (Named ''country'')),
                  Bare (Many [Named ''lastName'', Named ''firstName''])]),
         ClassDecl ''Company''
           (Some [Bare (One (Named ''accountNumber'')), Bare (One (Named ''country'')),
                  Bare (One (Named ''name''))])]\<rparr>"

definition example_db :: odb where
  "example_db =
     \<lparr>self = RootObject, odb_name = ''Test'', objectDatabase = RootObject, database = Database,
      db_indexes = build_indexes (opt_classes example_options)\<rparr>"

definition new_state :: state where
  "new_state =
     \<lparr>hasBeenInitialized = False, isInitializing = False, record_store = Map.empty, table = [],
      tx_count = 0, trace = [], options_heap = Map.empty, query_heap = Map.empty, next_ref = 0\<rparr>"

definition created_state :: state where
  "created_state =
     new_state\<lparr>hasBeenInitialized := True,
       record_store := [''Test'' \<mapsto> \<lparr>lr_name = ''Test'', lr_version = 1\<rparr>],
       trace := [DatabaseInitialized, RecordPut ''Test'' 1, Emitted ''didCreate'',
                 LogCreated ''Test'', TablesMarkedAsRemovedRemoved, Emitted ''didInitialize'']\<rparr>"

definition mvila :: item where
  "mvila = [(''accountNumber'', VNum 12345), (''firstName'', VStr ''Manuel''),
            (''lastName'', VStr ''Vila''), (''country'', VStr ''France'')]"

definition stocked_state :: state where
  "stocked_state =
     created_state\<lparr>table :=
       [(''mvila'', mvila @ [(''_classes'', VArr [VStr ''Account'', VStr ''Person''])])]\<rparr>"

definition no_options :: item_options where
  "no_options = \<lparr>errorIfMissing = None, createIfMissing = None, errorIfExists = None\<rparr>"

definition quiet :: item_options where
  "quiet = \<lparr>errorIfMissing = Some False, createIfMissing = None, errorIfExists = None\<rparr>"

text \<open>
  A table holding records whose reserved attribute is not a list of class names: a
  list with a number in it, and an empty list.
\<close>

definition mixed_classes :: jsval where
  "mixed_classes = VArr [VStr ''Account'', VNum 42]"

definition odd_state :: state where
  "odd_state =
     created_state\<lparr>table :=
       [(''mixed'', [(''n'', VNum 1), (''_classes'', mixed_classes)]),
        (''empty'', [(''n'', VNum 2), (''_classes'', VArr [])])]\<rparr>"

text \<open>
  Transaction bodies: one that stores an item, one that stores it and then throws, and
  one that calls \<^verbatim>\<open>tr.transaction\<close> with the throwing body inside \<^verbatim>\<open>try { } catch (e) { }\<close>.
\<close>

definition put_mvila :: "odb \<Rightarrow> unit op" where
  "put_mvila tr =
     putItem tr (VArr [VStr ''Account'', VStr ''Person'']) ''mvila'' mvila no_options"

definition failing_body :: "odb \<Rightarrow> unit op" where
  "failing_body tr = andThen (put_mvila tr) (\<lambda>u. throw (Raised ''something wrong''))"

definition catching_body :: "odb \<Rightarrow> unit op" where
  "catching_body tr s = (case transaction tr failing_body s of (r, s') \<Rightarrow> (Inr (), s'))"

text \<open>
  The six items of the test suite, the options object of its test of
  \<^verbatim>\<open>findAndDeleteItems\<close> (\<^verbatim>\<open>{ query: { country: 'France' }, batchSize: 2 }\<close>) on the heap,
  the state holding both, and a visitor that does nothing.
\<close>

definition test_table :: "(key \<times> item) list" where
  "test_table =
     [(''aaa'', [(''accountNumber'', VNum 45329), (''country'', VStr ''France''),
                (''_classes'', VArr [VStr ''Account''])]),
      (''bbb'', [(''accountNumber'', VNum 3246), (''firstName'', VStr ''Jack''),
                (''lastName'', VStr ''Daniel''), (''country'', VStr ''USA''),
                (''_classes'', VArr [VStr ''Account'', VStr ''Person''])]),
      (''ccc'', [(''accountNumber'', VNum 7002), (''name'', VStr ''Kinda Ltd''),
                (''country'', VStr ''China''),
                (''_classes'', VArr [VStr ''Account'', VStr ''Company''])]),
      (''ddd'', [(''accountNumber'', VNum 55498), (''firstName'', VStr ''Vincent''),
                (''lastName'', VStr ''Vila''), (''country'', VStr ''USA''),
                (''_classes'', VArr [VStr ''Account'', VStr ''Person''])]),
      (''eee'', [(''accountNumber'', VNum 888), (''firstName'', VStr ''Pierre''),
                (''lastName'', VStr ''Dupont''), (''country'', VStr ''France''),
                (''_classes'', VArr [VStr ''Account'', VStr ''Person''])]),
      (''fff'', [(''accountNumber'', VNum 8775), (''name'', VStr ''Fleur SARL''),
                (''country'', VStr ''France''),
                (''_classes'', VArr [VStr ''Account'', VStr ''Company''])])]"

definition test_options :: find_options where
  "test_options = no_find_options\<lparr>fo_query := Some 1, fo_batchSize := Some 2\<rparr>"

definition test_state :: state where
  "test_state =
     created_state\<lparr>table := test_table, options_heap := [0 \<mapsto> test_options],
       query_heap := [1 \<mapsto> [(''country'', VStr ''France'')]], next_ref := 2\<rparr>"



section \<open>Frames\<close>

text \<open>
  An operation preserves a view of the state when the view is the same after the
  operation as before it, however the operation ends. The lifecycle manager leaves the
  caller's data alone: the table, the count of physical transactions and the heap.
\<close>

definition preserves :: "(state \<Rightarrow> 'x) \<Rightarrow> 'a op \<Rightarrow> bool" where
  "preserves g m = (\<forall>s. g (snd (m s)) = g s)"

definition user_data ::
  "state \<Rightarrow> (key \<times> item) list \<times> nat \<times> (nat \<rightharpoonup> find_options)
            \<times> (nat \<rightharpoonup> (string \<times> jsval) list) \<times> nat" where
  "user_data s = (table s, tx_count s, options_heap s, query_heap s, next_ref s)"

text \<open>
  What the body of \<^verbatim>\<open>deleteItem\<close> returns or raises on a table: the missing key, the
  class check, the deletion.
\<close>

definition delete_outcome :: "string \<Rightarrow> key \<Rightarrow> item_options \<Rightarrow> state \<Rightarrow> error + bool" where
  "delete_outcome klass k options s =
     (case map_of (table s) k of
        None \<Rightarrow> if given_or True (errorIfMissing options) then Inl NotFound else Inr False
      | Some item \<Rightarrow>
          (case indexOf (attr item ''_classes'') klass of
             Inl e \<Rightarrow> Inl e
           | Inr i \<Rightarrow> if i = - 1 then Inl ClassMismatch else Inr True))"


text \<open>
  The query object an options object refers to after the class has been injected, and
  the entries it then holds: those of the caller's query, with the key of the class set
  to \<^verbatim>\<open>true\<close>.
\<close>

definition injected_ref :: "find_options \<Rightarrow> state \<Rightarrow> nat" where
  "injected_ref opts s = (case fo_query opts of Some q \<Rightarrow> q | None \<Rightarrow> next_ref s)"

definition injected_query :: "string \<Rightarrow> find_options \<Rightarrow> state \<Rightarrow> (string \<times> jsval) list" where
  "injected_query klass opts s =
     AList.update (makeIndexName klass) (VBool True)
       (case fo_query opts of Some q \<Rightarrow> query_at s q | None \<Rightarrow> [])"

text \<open>
  In the words of the specification: a record carries a class when its class list, the
  array under the reserved attribute, holds the name of the class. The class-scoped
  query: a record matches when it carries the class and satisfies the caller's query
  (any entry the caller had under the index name of the class aside). Options that carry
  only a query (and possibly a batch size) are the ones whose selection the model of the
  table store describes in full.
\<close>

definition carries :: "item \<Rightarrow> string \<Rightarrow> bool" where
  "carries item klass =
     (case attr item ''_classes'' of VArr cs \<Rightarrow> VStr klass \<in> set cs | other \<Rightarrow> False)"

definition class_scoped :: "index list \<Rightarrow> string \<Rightarrow> (string \<times> jsval) list \<Rightarrow> item \<Rightarrow> bool" where
  "class_scoped idxs klass q item =
     (carries item klass \<and> satisfies idxs (AList.delete (makeIndexName klass) q) item)"

text \<open>
  The display names of the functions that the class declarations themselves list among
  the properties of their indexes.
\<close>

fun derived_names :: "key_component list \<Rightarrow> string list" where
  "derived_names [] = []"
| "derived_names (Named p # cs) = derived_names cs"
| "derived_names (Derived n f # cs) = n # derived_names cs"

definition declared_function_names :: "class_decl list \<Rightarrow> string list" where
  "declared_function_names classes =
     derived_names (concat (map declared_properties (concat (map declared_indexes classes))))"

definition query_only :: "find_options \<Rightarrow> bool" where
  "query_only opts =
     (fo_order opts = None \<and> fo_start opts = None \<and> fo_startAfter opts = None
      \<and> fo_end opts = None \<and> fo_endBefore opts = None \<and> fo_reverse opts = None
      \<and> fo_properties opts = None \<and> fo_limit opts = None)"

text \<open>A state with its heap replaced: what the injection of a class does to a state.\<close>

definition with_heap ::
  "(nat \<rightharpoonup> find_options) \<Rightarrow> (nat \<rightharpoonup> (string \<times> jsval) list) \<Rightarrow> nat \<Rightarrow> state \<Rightarrow> state" where
  "with_heap a b c s = s\<lparr>options_heap := a, query_heap := b, next_ref := c\<rparr>"

section \<open>Basic facts\<close>

lemmas op_defs = andThen_def ret_def throw_def tryFinally_def emit_def log_info_def
  db_initializeDatabase_def db_removeTablesMarkedAsRemoved_def db_lockDatabase_def
  db_unlockDatabase_def store_get_def store_put_def store_transaction_def
  loadObjectDatabaseRecord_def saveObjectDatabaseRecord_def
  createObjectDatabaseIfDoesNotExist_def upgradeObjectDatabase_def upgrade_steps_def
  initializeObjectDatabase_def isInsideTransaction_def VERSION_def

lemma andThen_InrD:
  "andThen m f s = (Inr v, s1) \<Longrightarrow> \<exists>w s'. m s = (Inr w, s') \<and> f w s' = (Inr v, s1)"
  by (auto simp: andThen_def split: prod.splits sum.splits)

lemma array_indexOf_found: "(array_indexOf xs k i = - 1) = (VStr k \<notin> set xs)"
  by (induction xs k i rule: array_indexOf.induct) auto

text \<open>The membership function of a class on any record whose class list is an array.\<close>

lemma class_fn_list:
  "attr item ''_classes'' = VArr cs \<Longrightarrow>
     class_fn name item = Inr (if VStr name \<in> set cs then VBool True else VUndefined)"
  by (simp add: class_fn_def array_indexOf_found)

lemma class_fn_missing:
  "map_of item ''_classes'' = None \<Longrightarrow> class_fn name item = Inr VUndefined"
  by (simp add: class_fn_def attr_def)

lemma preservesD: "preserves g m \<Longrightarrow> g (snd (m s)) = g s"
  by (simp add: preserves_def)

lemma preserves_ret: "preserves g (ret v)"
  by (simp add: preserves_def ret_def)

lemma preserves_throw: "preserves g (throw e)"
  by (simp add: preserves_def throw_def)

lemma preserves_andThen:
  "preserves g m \<Longrightarrow> (\<And>v. preserves g (f v)) \<Longrightarrow> preserves g (andThen m f)"
  unfolding preserves_def andThen_def
proof (intro allI)
  fix s
  assume m: "\<forall>s. g (snd (m s)) = g s" and f: "\<And>v. \<forall>s. g (snd (f v s)) = g s"
  obtain r s' where ms: "m s = (r, s')" by (cases "m s")
  with m have "g s' = g s" by (metis snd_conv)
  with ms f show "g (snd (case m s of (Inl e, s') \<Rightarrow> (Inl e, s') | (Inr v, s') \<Rightarrow> f v s')) = g s"
    by (cases r) simp_all
qed

lemma preserves_tryFinally:
  "preserves g m \<Longrightarrow> preserves g c \<Longrightarrow> preserves g (tryFinally m c)"
  unfolding preserves_def tryFinally_def
proof (intro allI)
  fix s
  assume m: "\<forall>s. g (snd (m s)) = g s" and c: "\<forall>s. g (snd (c s)) = g s"
  obtain r s' where ms: "m s = (r, s')" by (cases "m s")
  obtain r' s'' where cs: "c s' = (r', s'')" by (cases "c s'")
  from m ms have "g s' = g s" by (metis snd_conv)
  moreover from c cs have "g s'' = g s'" by (metis snd_conv)
  ultimately show "g (snd (case m s of (r, s') \<Rightarrow>
        (case c s' of (Inl e, s'') \<Rightarrow> (Inl e, s'') | (Inr u, s'') \<Rightarrow> (r, s'')))) = g s"
    using ms cs by (cases r') simp_all
qed

lemma preserves_emit: "preserves user_data (emit n)"
  by (simp add: preserves_def emit_def user_data_def)

lemma preserves_log_info: "preserves user_data (log_info e)"
  by (simp add: preserves_def log_info_def user_data_def)

lemma preserves_lifecycle_calls:
  "preserves user_data db_initializeDatabase"
  "preserves user_data db_removeTablesMarkedAsRemoved"
  "preserves user_data db_lockDatabase"
  "preserves user_data db_unlockDatabase"
  by (simp_all add: preserves_def user_data_def db_initializeDatabase_def
      db_removeTablesMarkedAsRemoved_def db_lockDatabase_def db_unlockDatabase_def)

lemma preserves_store_get: "preserves user_data (store_get n b)"
  by (simp add: preserves_def store_get_def user_data_def split: option.splits)

lemma preserves_store_put: "preserves user_data (store_put n r b c)"
  by (simp add: preserves_def store_put_def user_data_def Let_def split: option.splits)

lemma preserves_store_transaction:
  "preserves user_data m \<Longrightarrow> preserves user_data (store_transaction m)"
  unfolding preserves_def store_transaction_def
proof (intro allI)
  fix s
  assume m: "\<forall>s. user_data (snd (m s)) = user_data s"
  obtain r s' where ms: "m s = (r, s')" by (cases "m s")
  with m have "user_data s' = user_data s" by (metis snd_conv)
  then show "user_data (snd (case m s of (Inl e, s') \<Rightarrow> (Inl e, s'\<lparr>record_store := record_store s\<rparr>)
                | (Inr v, s') \<Rightarrow> (Inr v, s'))) = user_data s"
    using ms by (cases r) (simp_all add: user_data_def)
qed

lemma preserves_create: "preserves user_data (createObjectDatabaseIfDoesNotExist this)"
  unfolding createObjectDatabaseIfDoesNotExist_def loadObjectDatabaseRecord_def
    saveObjectDatabaseRecord_def
  by (intro preserves_store_transaction preserves_andThen preserves_store_get)
     (auto intro!: preserves_andThen preserves_store_put preserves_emit preserves_log_info
        preserves_ret split: option.splits)

lemma preserves_upgrade: "preserves user_data (upgradeObjectDatabase this)"
  unfolding upgradeObjectDatabase_def loadObjectDatabaseRecord_def
    saveObjectDatabaseRecord_def upgrade_steps_def Let_def
  by (intro preserves_andThen preserves_store_get)
     (auto intro!: preserves_andThen preserves_store_put preserves_emit preserves_log_info
        preserves_ret preserves_throw split: option.splits)

lemma preserves_flag:
  "preserves user_data (\<lambda>s'. (Inr (), s'\<lparr>hasBeenInitialized := True\<rparr>))"
  "preserves user_data (\<lambda>s'. (Inr (), s'\<lparr>isInitializing := False\<rparr>))"
  by (simp_all add: preserves_def user_data_def)

lemma preserves_initialize: "preserves user_data (initializeObjectDatabase this)"
proof -
  have body: "preserves user_data
     (tryFinally
          (andThen db_initializeDatabase (\<lambda>u.
           andThen (createObjectDatabaseIfDoesNotExist this) (\<lambda>hasBeenCreated.
           andThen (if hasBeenCreated then db_removeTablesMarkedAsRemoved
                    else andThen db_lockDatabase (\<lambda>u.
                           tryFinally (upgradeObjectDatabase this) db_unlockDatabase)) (\<lambda>u.
           andThen (\<lambda>s'. (Inr (), s'\<lparr>hasBeenInitialized := True\<rparr>)) (\<lambda>u.
           emit ''didInitialize'')))))
          (\<lambda>s'. (Inr (), s'\<lparr>isInitializing := False\<rparr>)))"
    by (intro preserves_tryFinally preserves_andThen preserves_lifecycle_calls preserves_create
        preserves_flag preserves_emit)
       (auto intro!: preserves_andThen preserves_tryFinally preserves_lifecycle_calls
          preserves_upgrade)
  show ?thesis
    unfolding preserves_def
  proof
    fix s
    have "user_data (s\<lparr>isInitializing := True\<rparr>) = user_data s"
      by (simp add: user_data_def)
    with preservesD[OF body, of "s\<lparr>isInitializing := True\<rparr>"]
    show "user_data (snd (initializeObjectDatabase this s)) = user_data s"
      by (simp add: initializeObjectDatabase_def)
  qed
qed

lemma initialize_frame:
  assumes "initializeObjectDatabase this s = (r, s1)"
  shows "table s1 = table s" "tx_count s1 = tx_count s" "options_heap s1 = options_heap s"
    "query_heap s1 = query_heap s" "next_ref s1 = next_ref s"
  using preservesD[OF preserves_initialize, of this s] assms by (simp_all add: user_data_def)

lemma initialize_ready: "hasBeenInitialized s \<Longrightarrow> initializeObjectDatabase this s = (Inr (), s)"
  by (simp add: initializeObjectDatabase_def)

text \<open>A successful initialisation leaves the database ready, or was a reentrant call.\<close>

lemma initialize_success_flag:
  assumes "initializeObjectDatabase this s = (Inr (), s1)"
  shows "hasBeenInitialized s1 \<or> isInitializing s1"
proof (cases "hasBeenInitialized s \<or> isInitializing s")
  case True
  with assms show ?thesis by (auto simp: initializeObjectDatabase_def split: if_splits)
next
  case False
  define rest where "rest = (\<lambda>hasBeenCreated.
           andThen (if hasBeenCreated then db_removeTablesMarkedAsRemoved
                    else andThen db_lockDatabase (\<lambda>u.
                           tryFinally (upgradeObjectDatabase this) db_unlockDatabase)) (\<lambda>u.
           andThen (\<lambda>s'. (Inr (), s'\<lparr>hasBeenInitialized := True\<rparr>)) (\<lambda>u.
           emit ''didInitialize'')))"
  define body where "body = andThen db_initializeDatabase (\<lambda>u.
           andThen (createObjectDatabaseIfDoesNotExist this) rest)"
  from False assms have run: "tryFinally body (\<lambda>s'. (Inr (), s'\<lparr>isInitializing := False\<rparr>))
          (s\<lparr>isInitializing := True\<rparr>) = (Inr (), s1)"
    by (auto simp: initializeObjectDatabase_def body_def rest_def split: if_splits)
  then obtain s2 where b: "body (s\<lparr>isInitializing := True\<rparr>) = (Inr (), s2)"
    and s1: "s1 = s2\<lparr>isInitializing := False\<rparr>"
    by (auto simp: tryFinally_def split: prod.splits)
  from b obtain c s3 where "rest c s3 = (Inr (), s2)"
    unfolding body_def by (blast dest: andThen_InrD)
  then obtain s4 where "andThen (\<lambda>s'. (Inr (), s'\<lparr>hasBeenInitialized := True\<rparr>)) (\<lambda>u.
           emit ''didInitialize'') s4 = (Inr (), s2)"
    unfolding rest_def by (blast dest: andThen_InrD)
  then have "hasBeenInitialized s2"
    by (auto simp: andThen_def emit_def)
  with s1 show ?thesis by simp
qed

lemma initialize_again:
  assumes "initializeObjectDatabase this s = (Inr (), s1)"
    and "hasBeenInitialized s2 = hasBeenInitialized s1"
    and "isInitializing s2 = isInitializing s1"
  shows "initializeObjectDatabase that s2 = (Inr (), s2)"
  using initialize_success_flag[OF assms(1)] assms(2,3)
  by (auto simp: initializeObjectDatabase_def)

lemma creator_example: "creator example_options = Inr example_db"
  by (simp add: creator_def example_options_def example_db_def)

lemma initialize_new_state:
  "initializeObjectDatabase example_db new_state = (Inr (), created_state)"
  by (simp add: op_defs example_db_def new_state_def created_state_def)

lemma initialize_stocked_state:
  "initializeObjectDatabase example_db stocked_state = (Inr (), stocked_state)"
  by (rule initialize_ready) (simp add: stocked_state_def created_state_def new_state_def)

text \<open>
  What \<^verbatim>\<open>getItem\<close> does once the class name has passed \<^verbatim>\<open>checkClass\<close> and the lazy
  initialisation has succeeded.
\<close>

lemma getItem_after_init:
  assumes "klass \<noteq> []" and "initializeObjectDatabase this s = (Inr (), s1)"
  shows "getItem this klass k options s =
     (case map_of (table s) k of
        None \<Rightarrow> if given_or True (errorIfMissing options) then (Inl NotFound, s1) else (Inr None, s1)
      | Some item \<Rightarrow>
          (case indexOf (attr item ''_classes'') klass of
             Inl e \<Rightarrow> (Inl e, s1)
           | Inr i \<Rightarrow> if i = - 1 then (Inl ClassMismatch, s1)
                      else (Inr (Some \<lparr>item_classes = attr item ''_classes'',
                                        item_value = omit item ''_classes''\<rparr>), s1)))"
  using assms initialize_frame(1)[OF assms(2)]
  by (simp add: getItem_def andThen_def checkClass_def db_getItem_def ret_def throw_def Let_def
      split: option.splits sum.splits)

section \<open>Transactions on the root and on a derived object\<close>

lemma transaction_nested: "isInsideTransaction this \<Longrightarrow> transaction this fn s = fn this s"
  by (simp add: transaction_def)

lemma transaction_root:
  assumes "\<not> isInsideTransaction this" and "initializeObjectDatabase this s = (Inr (), s1)"
  shows "transaction this fn s =
     (case fn (derive this (tx_count s)) (s1\<lparr>tx_count := Suc (tx_count s)\<rparr>) of
        (Inr v, s') \<Rightarrow> (Inr v, s')
      | (Inl e, s') \<Rightarrow> (Inl e, s'\<lparr>table := table s\<rparr>))"
  using assms initialize_frame(1,2)[OF assms(2)]
  by (auto simp: transaction_def andThen_def db_transaction_def Let_def
      split: prod.splits sum.splits)

lemma creator_root:
  "creator opts = Inr this \<Longrightarrow> self this = RootObject \<and> objectDatabase this = RootObject"
  by (auto simp: creator_def split: if_splits)

lemmas run_defs = putItem_def getItem_def transaction_def checkClass_def andThen_def ret_def
  throw_def db_transaction_def db_putItem_def db_getItem_def db_deleteItem_def given_or_def
  derive_def initializeObjectDatabase_def isInsideTransaction_def Let_def no_options_def
  quiet_def attr_def omit_def

lemma put_mvila_nested:
  "put_mvila (derive example_db 0) (created_state\<lparr>tx_count := Suc 0\<rparr>)
     = (Inr (), stocked_state\<lparr>tx_count := Suc 0\<rparr>)"
  by (simp add: put_mvila_def run_defs stocked_state_def created_state_def new_state_def
      example_db_def mvila_def)

lemma failing_body_nested:
  "failing_body (derive example_db 0) (created_state\<lparr>tx_count := Suc 0\<rparr>)
     = (Inl (Raised ''something wrong''), stocked_state\<lparr>tx_count := Suc 0\<rparr>)"
  by (simp add: failing_body_def put_mvila_nested andThen_def throw_def)

section \<open>The heap of option objects\<close>

lemma inject_supplied:
  assumes "klass \<noteq> []" and "options_heap s r = Some opts"
  shows "injectClassInQueryOption klass (Some r) s =
     (Inr r,
      s\<lparr>query_heap := (query_heap s)(injected_ref opts s \<mapsto> injected_query klass opts s),
        options_heap := (options_heap s)(r \<mapsto> opts\<lparr>fo_query := Some (injected_ref opts s)\<rparr>),
        next_ref := (case fo_query opts of Some q \<Rightarrow> next_ref s | None \<Rightarrow> Suc (next_ref s))\<rparr>)"
proof (cases "fo_query opts")
  case None
  with assms show ?thesis
    by (simp add: injectClassInQueryOption_def checkClass_def options_at_def query_at_def
        injected_ref_def injected_query_def)
next
  case (Some q)
  have same: "(options_heap s)(r \<mapsto> opts\<lparr>fo_query := Some q\<rparr>) = options_heap s"
    using assms(2) Some by (auto simp: fun_upd_idem_iff)
  from assms Some show ?thesis
    by (simp add: injectClassInQueryOption_def checkClass_def options_at_def
        injected_ref_def injected_query_def same)
qed








section \<open>Selecting and deleting\<close>

lemma set_update_distinct:
  "distinct (map fst q) \<Longrightarrow> set (AList.update n v q) = insert (n, v) (set (AList.delete n q))"
proof (induction q)
  case Nil
  show ?case by simp
next
  case (Cons p ps)
  show ?case
  proof (cases "fst p = n")
    case True
    with Cons.prems have "n \<notin> fst ` set ps" by auto
    then have "AList.delete n ps = ps" by simp
    with True show ?thesis by simp
  next
    case False
    with Cons show ?thesis by auto
  qed
qed

lemma satisfies_update:
  assumes "distinct (map fst q)"
  shows "satisfies idxs (AList.update n v q) item =
     (key_value idxs n item = Inr v \<and> satisfies idxs (AList.delete n q) item)"
  by (simp add: satisfies_def list_all_iff set_update_distinct[OF assms])

lemma delete_each_present:
  assumes "distinct (map fst xs)" and "fst ` set xs \<subseteq> fst ` set (table s)"
  shows "delete_each h xs n s =
     (Inr (n + length xs), s\<lparr>table := filter (\<lambda>x. fst x \<notin> fst ` set xs) (table s)\<rparr>)"
  using assms
proof (induction xs arbitrary: n s)
  case Nil
  then show ?case by simp
next
  case (Cons x xs)
  let ?s = "s\<lparr>table := AList.delete (fst x) (table s)\<rparr>"
  from Cons.prems(2) have "map_of (table s) (fst x) \<noteq> None"
    by (simp add: map_of_eq_None_iff)
  then have d: "db_deleteItem h (fst x)
      \<lparr>errorIfMissing = Some False, createIfMissing = None, errorIfExists = None\<rparr> s
      = (Inr True, ?s)"
    by (auto simp: db_deleteItem_def)
  have keys: "fst ` set xs \<subseteq> fst ` set (table ?s)"
  proof
    fix k assume k: "k \<in> fst ` set xs"
    with Cons.prems(1) have "k \<noteq> fst x" by (auto simp: image_iff)
    moreover from k Cons.prems(2) obtain z where "z \<in> set (table s)" "fst z = k" by auto
    ultimately have "z \<in> set (AList.delete (fst x) (table s))"
      by (cases z) (auto simp: AList.delete_eq)
    with \<open>fst z = k\<close> show "k \<in> fst ` set (table ?s)" by force
  qed
  from Cons.prems(1) have dist: "distinct (map fst xs)" by simp
  have "filter (\<lambda>y. fst y \<notin> fst ` set xs) (AList.delete (fst x) (table s))
      = filter (\<lambda>y. fst y \<notin> fst ` set (x # xs)) (table s)"
    by (auto simp: AList.delete_eq intro: filter_cong)
  with Cons.IH[OF dist keys, of "Suc n"] d show ?case by simp
qed

lemma filter_selected:
  assumes "distinct (map fst tbl)"
  shows "filter (\<lambda>x. fst x \<notin> fst ` set (filter P tbl)) tbl = filter (\<lambda>x. \<not> P x) tbl"
proof (rule filter_cong[OF refl])
  fix x assume x: "x \<in> set tbl"
  have "fst x \<in> fst ` set (filter P tbl) \<longleftrightarrow> P x"
  proof
    assume "fst x \<in> fst ` set (filter P tbl)"
    then obtain y where y: "y \<in> set tbl" "P y" "fst y = fst x" by auto
    with assms x have "y = x"
      by (simp add: distinct_map inj_on_def)
    with y show "P x" by simp
  next
    assume "P x"
    with x show "fst x \<in> fst ` set (filter P tbl)" by auto
  qed
  then show "(fst x \<notin> fst ` set (filter P tbl)) = (\<not> P x)" by simp
qed

lemma initialize_with_heap:
  "initializeObjectDatabase this (with_heap a b c s) =
     (fst (initializeObjectDatabase this s), with_heap a b c (snd (initializeObjectDatabase this s)))"
  by (simp add: op_defs with_heap_def Let_def split: option.splits)

lemma inject_supplied_facts:
  assumes "klass \<noteq> []" and "options_heap s r = Some opts"
    and "injectClassInQueryOption klass (Some r) s = (res, si)"
  shows "res = Inr r"
    and "si = with_heap (options_heap si) (query_heap si) (next_ref si) s"
    and "options_heap si r = Some (opts\<lparr>fo_query := Some (injected_ref opts s)\<rparr>)"
    and "query_heap si (injected_ref opts s) = Some (injected_query klass opts s)"
  using assms(3) unfolding inject_supplied[OF assms(1,2)]
  by (auto simp: with_heap_def)

lemma db_select_unlimited:
  assumes "options_heap s r = Some opts" and "fo_limit opts = None" and "fo_query opts = Some q"
    and "query_heap s q = Some entries"
  shows "db_select idxs r s = filter (\<lambda>x. satisfies idxs entries (snd x)) (table s)"
  using assms by (simp add: db_select_def options_at_def query_at_def Let_def split_def)

text \<open>
  \<^verbatim>\<open>findAndDeleteItems\<close> on a database whose lazy initialisation succeeds: the state the
  deletions start from is the initialised state with the heap the injection left.
\<close>

lemma findAndDelete_after_init:
  assumes "klass \<noteq> []" and "initializeObjectDatabase this s = (Inr (), s1)"
    and "options_heap s r = Some opts" and "fo_limit opts = None"
    and "injectClassInQueryOption klass (Some r) s = (res, si)"
  shows "findAndDeleteItems modelled_store this klass (Some r) s =
     delete_each (database this)
       (filter (\<lambda>x. satisfies (db_indexes this) (injected_query klass opts s) (snd x)) (table s))
       0 (with_heap (options_heap si) (query_heap si) (next_ref si) s1)"
proof -
  let ?s2 = "with_heap (options_heap si) (query_heap si) (next_ref si) s1"
  note f = inject_supplied_facts[OF assms(1,3,5)]
  have init: "initializeObjectDatabase this si = (Inr (), ?s2)"
    using initialize_with_heap[of this "options_heap si" "query_heap si" "next_ref si" s]
      f(2) assms(2) by simp
  have heap: "options_heap ?s2 r = Some (opts\<lparr>fo_query := Some (injected_ref opts s)\<rparr>)"
    "query_heap ?s2 (injected_ref opts s) = Some (injected_query klass opts s)"
    "table ?s2 = table s"
    using f(3,4) initialize_frame(1)[OF assms(2)] by (simp_all add: with_heap_def)
  have sel: "db_select (db_indexes this) r ?s2 =
      filter (\<lambda>x. satisfies (db_indexes this) (injected_query klass opts s) (snd x)) (table s)"
    using db_select_unlimited[OF heap(1) _ _ heap(2), of "db_indexes this"] assms(4) heap(3)
    by simp
  from assms(5) f(1) init sel show ?thesis
    by (simp add: findAndDeleteItems_def modelled_store_def andThen_def db_findAndDeleteItems_def)
qed

lemma findAndDelete_result:
  assumes "klass \<noteq> []" and "initializeObjectDatabase this s = (Inr (), s1)"
    and "options_heap s r = Some opts" and "fo_limit opts = None"
    and "distinct (map fst (table s))"
    and "injectClassInQueryOption klass (Some r) s = (res, si)"
  shows "findAndDeleteItems modelled_store this klass (Some r) s =
     (Inr (length (filter (\<lambda>x. satisfies (db_indexes this) (injected_query klass opts s) (snd x))
                     (table s))),
      (with_heap (options_heap si) (query_heap si) (next_ref si) s1)
        \<lparr>table := filter (\<lambda>x. \<not> satisfies (db_indexes this) (injected_query klass opts s) (snd x))
                    (table s)\<rparr>)"
proof -
  let ?P = "\<lambda>x. satisfies (db_indexes this) (injected_query klass opts s) (snd x)"
  let ?s2 = "with_heap (options_heap si) (query_heap si) (next_ref si) s1"
  have t: "table ?s2 = table s"
    using initialize_frame(1)[OF assms(2)] by (simp add: with_heap_def)
  have d: "distinct (map fst (filter ?P (table s)))"
    using assms(5) by (rule distinct_map_filter)
  have k: "fst ` set (filter ?P (table s)) \<subseteq> fst ` set (table ?s2)"
    using t by auto
  show ?thesis
    unfolding findAndDelete_after_init[OF assms(1-4,6)] delete_each_present[OF d k] t
      filter_selected[OF assms(5)]
    by simp
qed

lemma injected_query_again:
  assumes "fo_query opts' = Some q" and "query_heap s' q = Some (injected_query klass opts s)"
  shows "injected_query klass opts' s' = injected_query klass opts s"
  using assms by (simp add: injected_query_def query_at_def)

text \<open>
  On a record whose class list is an array, the membership function of a class says
  \<^verbatim>\<open>true\<close> exactly when the record carries the class.
\<close>

lemma class_fn_carries:
  assumes "attr item ''_classes'' = VArr cs"
  shows "class_fn klass item = Inr (VBool True) \<longleftrightarrow> carries item klass"
  using assms by (simp add: class_fn_list carries_def)

lemma satisfies_injected:
  assumes "find_derived (concat (map idx_properties idxs)) (makeIndexName klass)
             = Some (class_fn klass)"
    and "q0 = (case fo_query opts of Some q \<Rightarrow> query_at s q | None \<Rightarrow> [])"
    and "distinct (map fst q0)"
    and "attr item ''_classes'' = VArr cs"
  shows "satisfies idxs (injected_query klass opts s) item = class_scoped idxs klass q0 item"
proof -
  have "key_value idxs (makeIndexName klass) item = class_fn klass item"
    by (simp add: key_value_def assms(1))
  then show ?thesis
    using satisfies_update[OF assms(3), of idxs "makeIndexName klass" "VBool True" item]
      class_fn_carries[OF assms(4), of klass]
    by (simp add: injected_query_def class_scoped_def assms(2))
qed

text \<open>
  The function the table finds under the index name of a declared class is the
  membership function of that class, provided the declarations do not themselves list a
  function with that display name.
\<close>

lemma find_derived_unique:
  assumes "Derived n f \<in> set cs" and "\<forall>g. Derived n g \<in> set cs \<longrightarrow> g = f"
  shows "find_derived cs n = Some f"
  using assms
proof (induction cs)
  case Nil
  then show ?case by simp
next
  case (Cons c cs)
  note uniq = Cons.prems(2)
  have rest: "\<forall>g. Derived n g \<in> set cs \<longrightarrow> g = f"
  proof (intro allI impI)
    fix g assume "Derived n g \<in> set cs"
    then have "Derived n g \<in> set (c # cs)" by simp
    with uniq show "g = f" by blast
  qed
  show ?case
  proof (cases c)
    case (Named p)
    with Cons.prems(1) have "Derived n f \<in> set cs" by simp
    from Cons.IH[OF this rest] Named show ?thesis by simp
  next
    case (Derived d f')
    show ?thesis
    proof (cases "d = n")
      case True
      with Derived have "Derived n f' \<in> set (c # cs)" by simp
      with uniq have "f' = f" by blast
      with Derived True show ?thesis by simp
    next
      case False
      with Cons.prems(1) Derived have "Derived n f \<in> set cs" by simp
      from Cons.IH[OF this rest] Derived False show ?thesis by simp
    qed
  qed
qed

lemma derived_names_mem: "Derived n f \<in> set cs \<Longrightarrow> n \<in> set (derived_names cs)"
  by (induction cs rule: derived_names.induct) auto

lemma derived_names_append: "derived_names (xs @ ys) = derived_names xs @ derived_names ys"
  by (induction xs rule: derived_names.induct) simp_all

lemma derived_names_concat: "set (derived_names (concat xss)) = (\<Union>xs\<in>set xss. set (derived_names xs))"
  by (induction xss) (simp_all add: derived_names_append)

section \<open>The test scenario\<close>

lemma example_key_values:
  "key_value (db_indexes example_db) ''Account?'' item = class_fn ''Account'' item"
  "key_value (db_indexes example_db) ''country'' item = Inr (attr item ''country'')"
  by (simp_all add: key_value_def example_db_def example_options_def build_indexes_def
      add_class_def add_index_def Let_def makeIndexName_def)

lemma initialize_test_state:
  "initializeObjectDatabase example_db test_state = (Inr (), test_state)"
  by (rule initialize_ready) (simp add: test_state_def created_state_def new_state_def)

lemma example_key_values_company:
  "key_value (db_indexes example_db) ''Company?'' item = class_fn ''Company'' item"
  by (simp add: key_value_def example_db_def example_options_def build_indexes_def
      add_class_def add_index_def Let_def makeIndexName_def)

lemma inject_test_state:
  "injectClassInQueryOption ''Company'' (Some 0) test_state =
     (Inr 0, test_state\<lparr>query_heap :=
        [1 \<mapsto> [(''country'', VStr ''France''), (''Company?'', VBool True)]]\<rparr>)"
  by (simp add: injectClassInQueryOption_def checkClass_def options_at_def query_at_def
      test_state_def test_options_def no_find_options_def makeIndexName_def created_state_def
      new_state_def)

text \<open>
  Of the six items of the test, all of which carry \<^verbatim>\<open>Account\<close>, two carry \<^verbatim>\<open>Company\<close>, and
  one of these is in France: \<^verbatim>\<open>fff\<close>, the last one.
\<close>

lemma findAndDelete_test_state:
  "findAndDeleteItems modelled_store example_db ''Company'' (Some 0) test_state =
     (Inr 1,
      test_state\<lparr>query_heap :=
         [1 \<mapsto> [(''country'', VStr ''France''), (''Company?'', VBool True)]],
        table := butlast test_table\<rparr>)"
proof -
  have a: "''Company'' \<noteq> []" by simp
  note i = initialize_test_state
  have o: "options_heap test_state 0 = Some test_options"
    by (simp add: test_state_def)
  have l: "fo_limit test_options = None"
    by (simp add: test_options_def no_find_options_def)
  have d: "distinct (map fst (table test_state))"
    by (simp add: test_state_def test_table_def)
  have q: "injected_query ''Company'' test_options test_state
      = [(''country'', VStr ''France''), (''Company?'', VBool True)]"
    by (simp add: injected_query_def test_options_def no_find_options_def query_at_def
        test_state_def makeIndexName_def)
  show ?thesis
    unfolding findAndDelete_result[OF a i o l d inject_test_state] q
    by (simp add: satisfies_def example_key_values example_key_values_company class_fn_def
        attr_def test_state_def test_table_def with_heap_def created_state_def new_state_def)
qed

section \<open>The schema builder\<close>

lemma add_index_spec: "add_index (membership_predicate name) acc d = acc @ [spec_index name d]"
  by (cases d rule: declared_properties.cases)
     (simp_all add: add_index_def spec_index_def split: option.splits)

lemma foldl_add_index:
  "foldl (add_index (membership_predicate name)) acc ds = acc @ map (spec_index name) ds"
  by (induction ds arbitrary: acc) (simp_all add: add_index_spec)

lemma add_class_spec: "add_class acc klass = acc @ spec_class_indexes klass"
proof (cases klass rule: declared_indexes.cases)
  case (1 n)
  then show ?thesis
    by (simp add: add_class_def spec_class_indexes_def add_index_def membership_predicate_def)
next
  case (2 n)
  then show ?thesis
    by (simp add: add_class_def spec_class_indexes_def add_index_def membership_predicate_def)
next
  case (3 n ds)
  have "foldl (add_index (membership_predicate n)) acc (Bare (Many []) # ds)
      = acc @ map (spec_index n) (Bare (Many []) # ds)"
    by (rule foldl_add_index)
  with 3 show ?thesis
    by (simp add: add_class_def spec_class_indexes_def spec_index_def
        membership_predicate_def)
qed

lemma foldl_add_class:
  "foldl add_class acc classes = acc @ concat (map spec_class_indexes classes)"
  by (induction classes arbitrary: acc) (simp_all add: add_class_spec)

text \<open>
  Claim C6. For every declared class, in the order of the declarations, the schema
  builder adds to the index list of the single shared table one membership-only index,
  whose sole key component is the membership predicate of the class, and then, for every
  declared index of the class in the declared order, an index whose key components are
  the membership predicate followed by the declared properties in their order; a
  declared projection gets the reserved attribute \<^verbatim>\<open>_classes\<close> appended, and an index
  without a projection stays without one; this list is the index list of the table of
  every database the creator builds from the declarations. The membership predicate of a class carries
  the display name made of the class name and a question mark; on any record whose
  class list is an array, wherever the reserved attribute stands in the record, it is
  \<^verbatim>\<open>true\<close> when the class name is in the list and \<^verbatim>\<open>undefined\<close> otherwise, and on a
  record without the reserved attribute it is \<^verbatim>\<open>undefined\<close>.
\<close>

theorem build_indexes_synthesis:
  "build_indexes classes =
     concat (map (\<lambda>klass.
       \<lparr>idx_properties = [membership_predicate (class_name klass)], idx_projection = None\<rparr>
       # map (\<lambda>d. \<lparr>idx_properties = membership_predicate (class_name klass) # declared_properties d,
                    idx_projection = map_option (\<lambda>pr. pr @ [''_classes'']) (declared_projection d)\<rparr>)
           (declared_indexes klass)) classes)
   \<and> membership_predicate name = Derived (name @ ''?'') (class_fn name)
   \<and> (\<forall>item cs. attr item ''_classes'' = VArr cs \<longrightarrow>
         class_fn name item = Inr (if VStr name \<in> set cs then VBool True else VUndefined))
   \<and> (\<forall>item. map_of item ''_classes'' = None \<longrightarrow> class_fn name item = Inr VUndefined)
   \<and> (\<forall>options db. opt_classes options = classes \<longrightarrow> creator options = Inr db
         \<longrightarrow> db_indexes db = build_indexes classes)"
proof -
  have made: "db_indexes db = build_indexes classes"
    if "opt_classes options = classes" "creator options = Inr db" for options db
    using that by (auto simp: creator_def split: if_splits)
  have "build_indexes classes = concat (map spec_class_indexes classes)"
    by (simp add: build_indexes_def foldl_add_class)
  moreover have "spec_class_indexes = (\<lambda>klass.
       \<lparr>idx_properties = [membership_predicate (class_name klass)], idx_projection = None\<rparr>
       # map (\<lambda>d. \<lparr>idx_properties = membership_predicate (class_name klass) # declared_properties d,
                    idx_projection = map_option (\<lambda>pr. pr @ [''_classes'']) (declared_projection d)\<rparr>)
           (declared_indexes klass))"
    by (rule ext) (simp add: spec_class_indexes_def spec_index_def)
  ultimately show ?thesis
    using made
    by (simp add: membership_predicate_def makeIndexName_def class_fn_list class_fn_missing)
qed

text \<open>
  The database of the documentation: one class \<^verbatim>\<open>People\<close> with a bare property, an array
  of properties and an index with a projection.
\<close>

theorem build_indexes_synthesis_witness:
  "creator example_options = Inr example_db
   \<and> db_indexes example_db = build_indexes (opt_classes example_options)
   \<and> build_indexes
     [ClassDecl ''People''
        (Some [Bare (One (Named ''age'')),
               Bare (Many [Named ''country'', Named ''city'']),
               Spec (Many [Named ''lastName'', Named ''firstName''])
                    (Some [''firstName'', ''lastName'', ''age''])])]
   = [\<lparr>idx_properties = [Derived ''People?'' (class_fn ''People'')], idx_projection = None\<rparr>,
      \<lparr>idx_properties = [Derived ''People?'' (class_fn ''People''), Named ''age''],
       idx_projection = None\<rparr>,
      \<lparr>idx_properties = [Derived ''People?'' (class_fn ''People''), Named ''country'',
                          Named ''city''],
       idx_projection = None\<rparr>,
      \<lparr>idx_properties = [Derived ''People?'' (class_fn ''People''), Named ''lastName'',
                          Named ''firstName''],
       idx_projection = Some [''firstName'', ''lastName'', ''age'', ''_classes'']\<rparr>]
   \<and> attr (mvila @ [(''_classes'', VArr [VStr ''Account'', VStr ''Person''])]) ''_classes''
      = VArr [VStr ''Account'', VStr ''Person'']
   \<and> class_fn ''Person'' (mvila @ [(''_classes'', VArr [VStr ''Account'', VStr ''Person''])])
      = Inr (VBool True)
   \<and> class_fn ''Company'' (mvila @ [(''_classes'', VArr [VStr ''Account'', VStr ''Person''])])
      = Inr VUndefined
   \<and> map_of mvila ''_classes'' = None
   \<and> class_fn ''Person'' mvila = Inr VUndefined"
proof -
  have a: "attr (mvila @ [(''_classes'', VArr [VStr ''Account'', VStr ''Person''])]) ''_classes''
      = VArr [VStr ''Account'', VStr ''Person'']"
    by (simp add: attr_def mvila_def)
  have m: "map_of mvila ''_classes'' = None"
    by (simp add: mvila_def)
  note lists = build_indexes_synthesis
    [of "[ClassDecl ''People''
        (Some [Bare (One (Named ''age'')),
               Bare (Many [Named ''country'', Named ''city'']),
               Spec (Many [Named ''lastName'', Named ''firstName''])
                    (Some [''firstName'', ''lastName'', ''age''])])]" "''People''",
      THEN conjunct1]
  note made = build_indexes_synthesis[of "opt_classes example_options" "''Person''",
      THEN conjunct2, THEN conjunct2, THEN conjunct2, THEN conjunct2, rule_format,
      OF refl creator_example]
  note person = build_indexes_synthesis[of "[]" "''Person''", THEN conjunct2, THEN conjunct2,
      THEN conjunct1, rule_format, OF a]
  note company = build_indexes_synthesis[of "[]" "''Company''", THEN conjunct2, THEN conjunct2,
      THEN conjunct1, rule_format, OF a]
  note bare = build_indexes_synthesis[of "[]" "''Person''", THEN conjunct2, THEN conjunct2,
      THEN conjunct2, THEN conjunct1, rule_format, OF m]
  from lists made person company bare a m creator_example show ?thesis
    by (simp add: membership_predicate_def makeIndexName_def)
qed

section \<open>The upgrade routine\<close>

text \<open>
  Claim C8. With a lifecycle record persisted for the database, the upgrade routine loads
  it and compares its version with the constant \<^verbatim>\<open>VERSION\<close>: when they are equal it
  does nothing; when the stored version is greater it fails with VersionDowngrade and
  changes nothing; when the stored version is lesser it emits \<^verbatim>\<open>upgradeDidStart\<close>, runs
  the version-specific steps, puts the record back with the version set to \<^verbatim>\<open>VERSION\<close>,
  logs the upgrade and emits \<^verbatim>\<open>upgradeDidStop\<close>, in this order, and changes nothing else.
\<close>

theorem upgradeObjectDatabase_versions:
  assumes "record_store s (odb_name this) = Some r"
  shows "upgradeObjectDatabase this s =
     (if lr_version r = VERSION then (Inr (), s)
      else if lr_version r > VERSION then (Inl VersionDowngrade, s)
      else (Inr (),
            s\<lparr>record_store := (record_store s)(odb_name this \<mapsto> r\<lparr>lr_version := VERSION\<rparr>),
              trace := trace s @ [Emitted ''upgradeDidStart'', RecordPut (odb_name this) VERSION,
                                  LogUpgraded (odb_name this) VERSION,
                                  Emitted ''upgradeDidStop'']\<rparr>))"
  using assms
  by (simp add: upgradeObjectDatabase_def loadObjectDatabaseRecord_def store_get_def andThen_def
      ret_def throw_def emit_def upgrade_steps_def saveObjectDatabaseRecord_def store_put_def
      log_info_def Let_def)

theorem upgradeObjectDatabase_versions_witness:
  "record_store (new_state\<lparr>record_store := [''Test'' \<mapsto> \<lparr>lr_name = ''Test'', lr_version = 0\<rparr>]\<rparr>)
     (odb_name example_db) = Some \<lparr>lr_name = ''Test'', lr_version = 0\<rparr>
   \<and> upgradeObjectDatabase example_db
       (new_state\<lparr>record_store := [''Test'' \<mapsto> \<lparr>lr_name = ''Test'', lr_version = 0\<rparr>]\<rparr>)
     = (Inr (),
        new_state\<lparr>record_store := [''Test'' \<mapsto> \<lparr>lr_name = ''Test'', lr_version = 1\<rparr>],
          trace := [Emitted ''upgradeDidStart'', RecordPut ''Test'' 1, LogUpgraded ''Test'' 1,
                    Emitted ''upgradeDidStop'']\<rparr>)
   \<and> upgradeObjectDatabase example_db
       (new_state\<lparr>record_store := [''Test'' \<mapsto> \<lparr>lr_name = ''Test'', lr_version = 2\<rparr>]\<rparr>)
     = (Inl VersionDowngrade,
        new_state\<lparr>record_store := [''Test'' \<mapsto> \<lparr>lr_name = ''Test'', lr_version = 2\<rparr>]\<rparr>)
   \<and> upgradeObjectDatabase example_db created_state = (Inr (), created_state)"
proof -
  have n: "odb_name example_db = ''Test''"
    by (simp add: example_db_def)
  have r0: "record_store (new_state\<lparr>record_store := [''Test'' \<mapsto> \<lparr>lr_name = ''Test'', lr_version = 0\<rparr>]\<rparr>)
     (odb_name example_db) = Some \<lparr>lr_name = ''Test'', lr_version = 0\<rparr>"
    by (simp add: n)
  have r2: "record_store (new_state\<lparr>record_store := [''Test'' \<mapsto> \<lparr>lr_name = ''Test'', lr_version = 2\<rparr>]\<rparr>)
     (odb_name example_db) = Some \<lparr>lr_name = ''Test'', lr_version = 2\<rparr>"
    by (simp add: n)
  have r1: "record_store created_state (odb_name example_db)
     = Some \<lparr>lr_name = ''Test'', lr_version = 1\<rparr>"
    by (simp add: n created_state_def)
  show ?thesis
    using upgradeObjectDatabase_versions[OF r0] upgradeObjectDatabase_versions[OF r2]
      upgradeObjectDatabase_versions[OF r1] r0
    by (simp add: VERSION_def n new_state_def)
qed

section \<open>Reading an item\<close>

text \<open>
  Claim C3. For a class name that passes \<^verbatim>\<open>checkClass\<close> and a database whose lazy
  initialisation succeeds: on a key that is absent, \<^verbatim>\<open>getItem\<close> returns the absent
  result (\<^verbatim>\<open>undefined\<close>) when \<^verbatim>\<open>errorIfMissing\<close> is false, and fails with NotFound when
  \<^verbatim>\<open>errorIfMissing\<close> is true or not given; on a key that is present with a class list
  that does not contain the requested class, it fails with ClassMismatch whatever the
  options are.
\<close>

theorem getItem_missing_or_mismatch:
  assumes "klass \<noteq> []" and "initializeObjectDatabase this s = (Inr (), s1)"
  shows "(map_of (table s) k = None \<longrightarrow>
            (errorIfMissing options = Some False \<longrightarrow>
               getItem this klass k options s = (Inr None, s1))
          \<and> (errorIfMissing options \<noteq> Some False \<longrightarrow>
               getItem this klass k options s = (Inl NotFound, s1)))
       \<and> (\<forall>item cs. map_of (table s) k = Some item \<longrightarrow> attr item ''_classes'' = VArr cs
              \<longrightarrow> VStr klass \<notin> set cs
              \<longrightarrow> getItem this klass k options s = (Inl ClassMismatch, s1))"
  using getItem_after_init[OF assms, of k options]
  by (auto simp: given_or_def array_indexOf_found split: option.splits)

theorem getItem_missing_or_mismatch_witness:
  "''Account'' \<noteq> [] \<and> initializeObjectDatabase example_db new_state = (Inr (), created_state)
   \<and> map_of (table new_state) ''mvila'' = None
   \<and> getItem example_db ''Account'' ''mvila'' quiet new_state = (Inr None, created_state)
   \<and> getItem example_db ''Account'' ''mvila'' no_options new_state = (Inl NotFound, created_state)
   \<and> getItem example_db ''Company'' ''mvila'' quiet stocked_state
      = (Inl ClassMismatch, stocked_state)
   \<and> getItem example_db ''Company'' ''mvila'' no_options stocked_state
      = (Inl ClassMismatch, stocked_state)"
proof -
  have absent: "map_of (table new_state) ''mvila'' = None"
    by (simp add: new_state_def)
  have present: "map_of (table stocked_state) ''mvila''
      = Some (mvila @ [(''_classes'', VArr [VStr ''Account'', VStr ''Person''])])"
    by (simp add: stocked_state_def)
  have classes:
    "attr (mvila @ [(''_classes'', VArr [VStr ''Account'', VStr ''Person''])]) ''_classes''
      = VArr [VStr ''Account'', VStr ''Person'']"
    by (simp add: attr_def mvila_def)
  have a: "''Account'' \<noteq> []" and c: "''Company'' \<noteq> []" by simp_all
  show ?thesis
    using getItem_missing_or_mismatch[OF a initialize_new_state, of "''mvila''" quiet]
      getItem_missing_or_mismatch[OF a initialize_new_state, of "''mvila''" no_options]
      getItem_missing_or_mismatch[OF c initialize_stocked_state, of "''mvila''" quiet]
      getItem_missing_or_mismatch[OF c initialize_stocked_state, of "''mvila''" no_options]
      absent present classes initialize_new_state
    by (simp add: quiet_def no_options_def)
qed

section \<open>Writing an item and reading it back\<close>

lemma putItem_after_init:
  assumes "C \<noteq> []" and "initializeObjectDatabase this s = (Inr (), s1)"
    and "errorIfExists po \<noteq> Some True" and "createIfMissing po \<noteq> Some False"
  shows "putItem this (VArr C) k v po s =
     (Inr (), s1\<lparr>table := AList.update k (AList.update ''_classes'' (VArr C) v) (table s1)\<rparr>)"
  using assms
  by (auto simp: putItem_def andThen_def db_putItem_def given_or_def Let_def
      split: option.splits)

text \<open>
  Claim C1. For every non-empty class list \<open>C\<close>, key and value: on a database whose lazy
  initialisation succeeds, \<^verbatim>\<open>putItem(C, k, v)\<close> with options that neither forbid an
  existing key nor forbid a new one (the defaults among them) returns normally, and
  afterwards \<^verbatim>\<open>getItem(c, k)\<close> returns, for every class name \<open>c\<close> in \<open>C\<close>, the class
  list \<open>C\<close> as \<^verbatim>\<open>classes\<close> and \<open>v\<close> without the reserved attribute as \<^verbatim>\<open>value\<close>, while
  for any class name that is not in \<open>C\<close> it fails with ClassMismatch. A class name is a
  non-empty string, as \<^verbatim>\<open>checkClass\<close> demands of the class handed to \<^verbatim>\<open>getItem\<close>.
\<close>

theorem putItem_getItem_roundtrip:
  assumes "C \<noteq> []" and "initializeObjectDatabase this s = (Inr (), s1)"
    and "errorIfExists po \<noteq> Some True" and "createIfMissing po \<noteq> Some False"
    and "putItem this (VArr C) k v po s = (r, s2)"
  shows "r = Inr ()
       \<and> (\<forall>c. VStr c \<in> set C \<longrightarrow> c \<noteq> [] \<longrightarrow>
            getItem this c k go s2 =
              (Inr (Some \<lparr>item_classes = VArr C, item_value = omit v ''_classes''\<rparr>), s2))
       \<and> (\<forall>c'. VStr c' \<notin> set C \<longrightarrow> c' \<noteq> [] \<longrightarrow>
            getItem this c' k go s2 = (Inl ClassMismatch, s2))"
proof -
  let ?item = "AList.update ''_classes'' (VArr C) v"
  from putItem_after_init[OF assms(1-4), of k v] assms(5)
  have r: "r = Inr ()" and s2: "s2 = s1\<lparr>table := AList.update k ?item (table s1)\<rparr>"
    by simp_all
  have init2: "initializeObjectDatabase this s2 = (Inr (), s2)"
    by (rule initialize_again[OF assms(2)]) (simp_all add: s2)
  have stored: "map_of (table s2) k = Some ?item"
    by (simp add: s2 update_conv')
  have classes: "attr ?item ''_classes'' = VArr C"
    by (simp add: attr_def update_conv')
  have rest: "omit ?item ''_classes'' = omit v ''_classes''"
    by (simp add: omit_def delete_update_same)
  have "getItem this c k go s2 =
      (if VStr c \<in> set C
       then (Inr (Some \<lparr>item_classes = VArr C, item_value = omit v ''_classes''\<rparr>), s2)
       else (Inl ClassMismatch, s2))" if "c \<noteq> []" for c
    using getItem_after_init[OF that init2, of k go] stored classes rest
    by (simp add: array_indexOf_found)
  with r show ?thesis by simp
qed

theorem putItem_getItem_roundtrip_witness:
  "[VStr ''Account'', VStr ''Person''] \<noteq> []
   \<and> initializeObjectDatabase example_db new_state = (Inr (), created_state)
   \<and> errorIfExists no_options \<noteq> Some True \<and> createIfMissing no_options \<noteq> Some False
   \<and> putItem example_db (VArr [VStr ''Account'', VStr ''Person'']) ''mvila'' mvila no_options new_state
      = (Inr (), stocked_state)
   \<and> getItem example_db ''Account'' ''mvila'' no_options stocked_state
      = (Inr (Some \<lparr>item_classes = VArr [VStr ''Account'', VStr ''Person''], item_value = mvila\<rparr>),
         stocked_state)
   \<and> getItem example_db ''Person'' ''mvila'' no_options stocked_state
      = (Inr (Some \<lparr>item_classes = VArr [VStr ''Account'', VStr ''Person''], item_value = mvila\<rparr>),
         stocked_state)
   \<and> getItem example_db ''Company'' ''mvila'' no_options stocked_state
      = (Inl ClassMismatch, stocked_state)"
proof -
  have c: "[VStr ''Account'', VStr ''Person''] \<noteq> []" by simp
  have o: "errorIfExists no_options \<noteq> Some True" "createIfMissing no_options \<noteq> Some False"
    by (simp_all add: no_options_def)
  have put: "putItem example_db (VArr [VStr ''Account'', VStr ''Person'']) ''mvila'' mvila
      no_options new_state = (Inr (), stocked_state)"
    using putItem_after_init[OF c initialize_new_state o, of "''mvila''" mvila]
    by (simp add: stocked_state_def created_state_def new_state_def mvila_def)
  have v: "omit mvila ''_classes'' = mvila"
    by (simp add: omit_def mvila_def)
  show ?thesis
    using putItem_getItem_roundtrip[OF c initialize_new_state o put, of no_options]
      initialize_new_state put o v
    by simp
qed

section \<open>Decoding a stored record\<close>

lemma initialize_odd_state: "initializeObjectDatabase example_db odd_state = (Inr (), odd_state)"
  by (rule initialize_ready) (simp add: odd_state_def created_state_def new_state_def)

text \<open>
  Claim C9, as amended. Decoding a stored record, as \<^verbatim>\<open>getItem\<close> does it for a class
  name that passes \<^verbatim>\<open>checkClass\<close> on a database whose lazy initialisation succeeds,
  does not validate the reserved class-list attribute: when the attribute is an array
  that holds the requested class name, \<^verbatim>\<open>getItem\<close> yields that attribute as it is as
  \<^verbatim>\<open>classes\<close>, whatever else the array holds, and every other attribute as \<^verbatim>\<open>value\<close>;
  when it is an array without the requested class name, the empty array included,
  \<^verbatim>\<open>getItem\<close> fails with ClassMismatch.
\<close>

theorem getItem_decode_unvalidated:
  assumes "klass \<noteq> []" and "initializeObjectDatabase this s = (Inr (), s1)"
    and "map_of (table s) k = Some item" and "attr item ''_classes'' = VArr cs"
  shows "(VStr klass \<in> set cs \<longrightarrow>
            getItem this klass k options s =
              (Inr (Some \<lparr>item_classes = VArr cs, item_value = omit item ''_classes''\<rparr>), s1))
       \<and> (VStr klass \<notin> set cs \<longrightarrow>
            getItem this klass k options s = (Inl ClassMismatch, s1))
       \<and> map_of (omit item ''_classes'') = (map_of item)(''_classes'' := None)"
  using getItem_after_init[OF assms(1,2), of k options] assms(3,4)
  by (simp add: array_indexOf_found omit_def delete_conv')

theorem getItem_decode_unvalidated_witness:
  "''Account'' \<noteq> [] \<and> initializeObjectDatabase example_db odd_state = (Inr (), odd_state)
   \<and> map_of (table odd_state) ''mixed'' = Some [(''n'', VNum 1), (''_classes'', mixed_classes)]
   \<and> getItem example_db ''Account'' ''mixed'' no_options odd_state
      = (Inr (Some \<lparr>item_classes = VArr [VStr ''Account'', VNum 42],
                    item_value = [(''n'', VNum 1)]\<rparr>), odd_state)
   \<and> getItem example_db ''Person'' ''mixed'' no_options odd_state = (Inl ClassMismatch, odd_state)"
proof -
  have a: "''Account'' \<noteq> []" and p: "''Person'' \<noteq> []" by simp_all
  have m: "map_of (table odd_state) ''mixed'' = Some [(''n'', VNum 1), (''_classes'', mixed_classes)]"
    by (simp add: odd_state_def)
  have c: "attr [(''n'', VNum 1), (''_classes'', mixed_classes)] ''_classes''
     = VArr [VStr ''Account'', VNum 42]"
    by (simp add: attr_def mixed_classes_def)
  have v: "omit [(''n'', VNum 1), (''_classes'', mixed_classes)] ''_classes'' = [(''n'', VNum 1)]"
    by (simp add: omit_def AList.delete_eq)
  show ?thesis
    using getItem_decode_unvalidated[OF a initialize_odd_state m c, of no_options]
      getItem_decode_unvalidated[OF p initialize_odd_state m c, of no_options]
      initialize_odd_state m c v
    by simp
qed

text \<open>
  Claim C9 as stated fails. \<^verbatim>\<open>putItem\<close> accepts the class list \<^verbatim>\<open>['Account', 42]\<close>, which
  is not a sequence of strings, and \<^verbatim>\<open>getItem('Account', ...)\<close> then returns the record
  with that list as its classes; a record with an empty class list makes \<^verbatim>\<open>getItem\<close> fail
  with ClassMismatch, not with InvalidArgument.
\<close>

theorem getItem_decode_counterexample:
  "putItem example_db mixed_classes ''mixed'' [(''n'', VNum 1)] no_options created_state
     = (Inr (), created_state\<lparr>table := [(''mixed'', [(''n'', VNum 1), (''_classes'', mixed_classes)])]\<rparr>)
   \<and> getItem example_db ''Account'' ''mixed'' no_options
       (created_state\<lparr>table := [(''mixed'', [(''n'', VNum 1), (''_classes'', mixed_classes)])]\<rparr>)
     = (Inr (Some \<lparr>item_classes = VArr [VStr ''Account'', VNum 42],
                    item_value = [(''n'', VNum 1)]\<rparr>),
        created_state\<lparr>table := [(''mixed'', [(''n'', VNum 1), (''_classes'', mixed_classes)])]\<rparr>)
   \<and> getItem example_db ''Account'' ''empty'' no_options odd_state = (Inl ClassMismatch, odd_state)"
  by (simp add: putItem_def getItem_def checkClass_def db_putItem_def db_getItem_def
      initializeObjectDatabase_def andThen_def ret_def throw_def given_or_def no_options_def
      mixed_classes_def odd_state_def created_state_def new_state_def example_db_def
      attr_def omit_def AList.delete_eq Let_def)

section \<open>Deleting an item\<close>

lemma deleteItem_after_init:
  assumes "klass \<noteq> []" and "initializeObjectDatabase this s = (Inr (), s1)"
  shows "fst (deleteItem this klass k options s) = delete_outcome klass k options s"
    and "table (snd (deleteItem this klass k options s)) =
           (if delete_outcome klass k options s = Inr True then AList.delete k (table s)
            else table s)"
    and "hasBeenInitialized (snd (deleteItem this klass k options s)) = hasBeenInitialized s1"
    and "isInitializing (snd (deleteItem this klass k options s)) = isInitializing s1"
proof -
  have "fst (deleteItem this klass k options s) = delete_outcome klass k options s
    \<and> table (snd (deleteItem this klass k options s)) =
           (if delete_outcome klass k options s = Inr True then AList.delete k (table s)
            else table s)
    \<and> hasBeenInitialized (snd (deleteItem this klass k options s)) = hasBeenInitialized s1
    \<and> isInitializing (snd (deleteItem this klass k options s)) = isInitializing s1"
  proof (cases "isInsideTransaction this")
    case True
    with assms(2) have "s1 = s"
      by (auto simp: initializeObjectDatabase_def split: if_splits)
    with True assms(1) show ?thesis
      by (auto simp: deleteItem_def transaction_def checkClass_def andThen_def db_getItem_def
          db_deleteItem_def ret_def throw_def delete_outcome_def given_or_def
          split: option.splits sum.splits)
  next
    case False
    from assms(1) initialize_frame(1)[OF assms(2)] show ?thesis
      by (auto simp: deleteItem_def checkClass_def andThen_def
          transaction_root[OF False assms(2)] db_getItem_def db_deleteItem_def ret_def throw_def
          delete_outcome_def given_or_def
          split: option.splits sum.splits)
  qed
  then show "fst (deleteItem this klass k options s) = delete_outcome klass k options s"
    and "table (snd (deleteItem this klass k options s)) =
           (if delete_outcome klass k options s = Inr True then AList.delete k (table s)
            else table s)"
    and "hasBeenInitialized (snd (deleteItem this klass k options s)) = hasBeenInitialized s1"
    and "isInitializing (snd (deleteItem this klass k options s)) = isInitializing s1"
    by simp_all
qed

lemma delete_outcome_cases:
  "delete_outcome klass k options s = Inr True \<Longrightarrow> map_of (table s) k \<noteq> None"
  "delete_outcome klass k options s = Inr False \<Longrightarrow> map_of (table s) k = None"
  by (auto simp: delete_outcome_def split: option.splits sum.splits if_splits)

lemma delete_outcome_tagged:
  "map_of (table s) k = Some item \<Longrightarrow> attr item ''_classes'' = VArr cs \<Longrightarrow> VStr klass \<in> set cs
     \<Longrightarrow> delete_outcome klass k options s = Inr True"
  by (simp add: delete_outcome_def array_indexOf_found)

lemma delete_outcome_absent:
  "map_of (table s) k = None \<Longrightarrow> errorIfMissing options = Some False
     \<Longrightarrow> delete_outcome klass k options s = Inr False"
  by (simp add: delete_outcome_def given_or_def)

text \<open>
  Claim C4. On a database whose lazy initialisation succeeds and for a class name that
  passes \<^verbatim>\<open>checkClass\<close>,
  \<^verbatim>\<open>deleteItem\<close> returns a boolean that is true if and only if a deletion occurred: on
  an item that exists and carries the class it returns true and the key is gone from the
  table, and a repeated delete of that key with \<^verbatim>\<open>errorIfMissing\<close> false then returns
  false; on an absent key with \<^verbatim>\<open>errorIfMissing\<close> false it returns false and leaves the
  table as it was; and whenever it returns a boolean at all, the boolean is true exactly
  when the key was in the table before and is not after, the table being otherwise
  unchanged.
\<close>

theorem deleteItem_returns_deleted:
  assumes "klass \<noteq> []" and "initializeObjectDatabase this s = (Inr (), s1)"
    and "deleteItem this klass k options s = (r, s')"
  shows "(\<forall>item cs. map_of (table s) k = Some item \<longrightarrow> attr item ''_classes'' = VArr cs
            \<longrightarrow> VStr klass \<in> set cs
            \<longrightarrow> r = Inr True \<and> table s' = AList.delete k (table s)
                \<and> (\<forall>again. errorIfMissing again = Some False
                      \<longrightarrow> fst (deleteItem this klass k again s') = Inr False))
       \<and> (map_of (table s) k = None \<longrightarrow> errorIfMissing options = Some False
            \<longrightarrow> r = Inr False \<and> table s' = table s)
       \<and> (\<forall>b. r = Inr b
            \<longrightarrow> b = (map_of (table s) k \<noteq> None \<and> map_of (table s') k = None)
                \<and> table s' = (if b then AList.delete k (table s) else table s))"
proof -
  from deleteItem_after_init[OF assms(1,2), of k options] assms(3)
  have r: "r = delete_outcome klass k options s"
    and t: "table s' = (if r = Inr True then AList.delete k (table s) else table s)"
    and flags: "hasBeenInitialized s' = hasBeenInitialized s1" "isInitializing s' = isInitializing s1"
    by simp_all
  have i: "initializeObjectDatabase this s' = (Inr (), s')"
    by (rule initialize_again[OF assms(2) flags])
  have gone: "map_of (AList.delete k (table s)) k = None"
    by (simp add: delete_conv')
  have first: "r = Inr True \<and> table s' = AList.delete k (table s)
                \<and> (\<forall>again. errorIfMissing again = Some False
                      \<longrightarrow> fst (deleteItem this klass k again s') = Inr False)"
    if "map_of (table s) k = Some item" "attr item ''_classes'' = VArr cs" "VStr klass \<in> set cs"
    for item cs
  proof -
    from that have y: "r = Inr True"
      by (simp add: r delete_outcome_tagged)
    with t gone have "map_of (table s') k = None" by simp
    then have "fst (deleteItem this klass k again s') = Inr False"
      if "errorIfMissing again = Some False" for again
      using deleteItem_after_init(1)[OF assms(1) i, of k again] that
      by (simp add: delete_outcome_absent)
    with y t show ?thesis by simp
  qed
  have absent: "r = Inr False \<and> table s' = table s"
    if "map_of (table s) k = None" "errorIfMissing options = Some False"
    using that r t by (simp add: delete_outcome_absent)
  have iff: "b = (map_of (table s) k \<noteq> None \<and> map_of (table s') k = None)
                \<and> table s' = (if b then AList.delete k (table s) else table s)"
    if "r = Inr b" for b
  proof (cases b)
    case True
    with that r t gone delete_outcome_cases(1)[of klass k options s] show ?thesis by simp
  next
    case False
    with that r t delete_outcome_cases(2)[of klass k options s] show ?thesis by simp
  qed
  from first absent iff show ?thesis by blast
qed

theorem deleteItem_returns_deleted_witness:
  "''Person'' \<noteq> []
   \<and> initializeObjectDatabase example_db stocked_state = (Inr (), stocked_state)
   \<and> deleteItem example_db ''Person'' ''mvila'' no_options stocked_state
      = (Inr True, created_state\<lparr>tx_count := 1\<rparr>)
   \<and> fst (deleteItem example_db ''Person'' ''mvila'' quiet (created_state\<lparr>tx_count := 1\<rparr>))
      = Inr False
   \<and> table (created_state\<lparr>tx_count := 1\<rparr>) = []"
proof -
  have p: "''Person'' \<noteq> []" by simp
  note i = initialize_stocked_state
  have d: "deleteItem example_db ''Person'' ''mvila'' no_options stocked_state
      = (Inr True, created_state\<lparr>tx_count := 1\<rparr>)"
    by (simp add: deleteItem_def transaction_def checkClass_def andThen_def db_transaction_def
      db_getItem_def db_deleteItem_def ret_def throw_def given_or_def derive_def
      initializeObjectDatabase_def isInsideTransaction_def Let_def no_options_def
      stocked_state_def created_state_def new_state_def example_db_def mvila_def attr_def
      AList.delete_eq)
  have m: "map_of (table stocked_state) ''mvila''
      = Some (mvila @ [(''_classes'', VArr [VStr ''Account'', VStr ''Person''])])"
    by (simp add: stocked_state_def)
  have c: "attr (mvila @ [(''_classes'', VArr [VStr ''Account'', VStr ''Person''])]) ''_classes''
      = VArr [VStr ''Account'', VStr ''Person'']"
    by (simp add: attr_def mvila_def)
  have q: "errorIfMissing quiet = Some False"
    by (simp add: quiet_def)
  have e: "VStr ''Person'' \<in> set [VStr ''Account'', VStr ''Person'']"
    by simp
  note first = deleteItem_returns_deleted[OF p i d, THEN conjunct1, rule_format, OF m c e]
  note again = first[THEN conjunct2, THEN conjunct2, rule_format, OF q]
  have t: "table (created_state\<lparr>tx_count := 1\<rparr>) = []"
    by (simp add: created_state_def new_state_def)
  show ?thesis
    by (intro conjI) (rule p i d again t)+
qed

section \<open>Scopes\<close>

text \<open>
  Claim C7. Called on an object that is already inside a transaction, \<^verbatim>\<open>transaction(fn)\<close>
  is \<^verbatim>\<open>fn\<close> applied to that same object on the state as it is: nothing is initialised
  and no physical transaction is opened. Called on the root object built by the creator,
  with the lazy initialisation succeeding (it opens no physical transaction itself),
  \<^verbatim>\<open>transaction(fn)\<close> opens one physical transaction, the next handle, and runs \<^verbatim>\<open>fn\<close> on
  the object derived from the root for that handle, whose \<^verbatim>\<open>database\<close> is the handle; a
  body that opens no physical transaction of its own leaves the count one higher than
  before the call. \<^verbatim>\<open>isInsideTransaction\<close> reads the object alone (it neither takes nor
  returns a state): it is false for the root and true for the derived object handed to
  the body.
\<close>

theorem transaction_scopes:
  "(isInsideTransaction this \<longrightarrow> transaction this fn s = fn this s)
   \<and> (\<forall>opts s1. creator opts = Inr this \<longrightarrow> initializeObjectDatabase this s = (Inr (), s1) \<longrightarrow>
         \<not> isInsideTransaction this
         \<and> tx_count s1 = tx_count s
         \<and> transaction this fn s =
             (case fn (derive this (tx_count s)) (s1\<lparr>tx_count := Suc (tx_count s)\<rparr>) of
                (Inr v, s') \<Rightarrow> (Inr v, s')
              | (Inl e, s') \<Rightarrow> (Inl e, s'\<lparr>table := table s\<rparr>))
         \<and> isInsideTransaction (derive this (tx_count s))
         \<and> database (derive this (tx_count s)) = Transaction (tx_count s)
         \<and> (tx_count (snd (fn (derive this (tx_count s)) (s1\<lparr>tx_count := Suc (tx_count s)\<rparr>)))
              = Suc (tx_count s)
            \<longrightarrow> tx_count (snd (transaction this fn s)) = Suc (tx_count s)))"
proof -
  have root: "\<not> isInsideTransaction this
         \<and> tx_count s1 = tx_count s
         \<and> transaction this fn s =
             (case fn (derive this (tx_count s)) (s1\<lparr>tx_count := Suc (tx_count s)\<rparr>) of
                (Inr v, s') \<Rightarrow> (Inr v, s')
              | (Inl e, s') \<Rightarrow> (Inl e, s'\<lparr>table := table s\<rparr>))
         \<and> isInsideTransaction (derive this (tx_count s))
         \<and> database (derive this (tx_count s)) = Transaction (tx_count s)
         \<and> (tx_count (snd (fn (derive this (tx_count s)) (s1\<lparr>tx_count := Suc (tx_count s)\<rparr>)))
              = Suc (tx_count s)
            \<longrightarrow> tx_count (snd (transaction this fn s)) = Suc (tx_count s))"
    if c: "creator opts = Inr this" and i: "initializeObjectDatabase this s = (Inr (), s1)"
    for opts s1
  proof -
    from creator_root[OF c] have out: "\<not> isInsideTransaction this"
      and inside: "isInsideTransaction (derive this (tx_count s))"
      by (simp_all add: isInsideTransaction_def derive_def)
    note t = transaction_root[OF out i, of fn]
    have "tx_count (snd (transaction this fn s)) = Suc (tx_count s)"
      if "tx_count (snd (fn (derive this (tx_count s)) (s1\<lparr>tx_count := Suc (tx_count s)\<rparr>)))
              = Suc (tx_count s)"
      using that unfolding t by (auto split: prod.splits sum.splits)
    with out inside t initialize_frame(2)[OF i] show ?thesis
      by (simp add: derive_def)
  qed
  with transaction_nested[of this fn s] show ?thesis by blast
qed

theorem transaction_scopes_witness:
  "creator example_options = Inr example_db
   \<and> initializeObjectDatabase example_db new_state = (Inr (), created_state)
   \<and> \<not> isInsideTransaction example_db
   \<and> transaction example_db put_mvila new_state = (Inr (), stocked_state\<lparr>tx_count := Suc 0\<rparr>)
   \<and> isInsideTransaction (derive example_db 0)
   \<and> database (derive example_db 0) = Transaction 0
   \<and> transaction (derive example_db 0) put_mvila (created_state\<lparr>tx_count := Suc 0\<rparr>)
      = (Inr (), stocked_state\<lparr>tx_count := Suc 0\<rparr>)"
proof -
  have z: "tx_count new_state = 0"
    by (simp add: new_state_def)
  note root = transaction_scopes[of example_db put_mvila new_state, THEN conjunct2, rule_format,
      OF creator_example initialize_new_state, unfolded z put_mvila_nested]
  from root have inside: "isInsideTransaction (derive example_db 0)" by simp
  note nested = transaction_scopes[of "derive example_db 0" put_mvila
      "created_state\<lparr>tx_count := Suc 0\<rparr>", THEN conjunct1, rule_format, OF inside,
      unfolded put_mvila_nested]
  from root nested creator_example initialize_new_state show ?thesis by simp
qed

section \<open>Commit and abort\<close>

text \<open>
  Claim C2, as amended. For \<^verbatim>\<open>transaction(fn)\<close> called on an object that is not inside a
  transaction, with the lazy initialisation succeeding: when \<^verbatim>\<open>fn\<close> returns normally,
  the call returns its value and the state is the one the body left, so every write of
  the body is there; when \<^verbatim>\<open>fn\<close> raises an error, the call raises the same error and
  the table is the one from before the call. Called on an object that is already inside
  a transaction, \<^verbatim>\<open>transaction(fn)\<close> is \<^verbatim>\<open>fn\<close> on that object: it commits nothing and
  rolls nothing back, the error of \<^verbatim>\<open>fn\<close> is raised unchanged, and the writes of \<^verbatim>\<open>fn\<close>
  share the fate of the enclosing transaction.
\<close>

theorem transaction_commit_or_abort:
  "(\<forall>s1 r s2. \<not> isInsideTransaction this \<longrightarrow> initializeObjectDatabase this s = (Inr (), s1) \<longrightarrow>
       fn (derive this (tx_count s)) (s1\<lparr>tx_count := Suc (tx_count s)\<rparr>) = (r, s2) \<longrightarrow>
         (\<forall>v. r = Inr v \<longrightarrow> transaction this fn s = (Inr v, s2))
       \<and> (\<forall>e. r = Inl e \<longrightarrow> transaction this fn s = (Inl e, s2\<lparr>table := table s\<rparr>)))
   \<and> (isInsideTransaction this \<longrightarrow> transaction this fn s = fn this s)"
proof -
  have "(\<forall>v. r = Inr v \<longrightarrow> transaction this fn s = (Inr v, s2))
       \<and> (\<forall>e. r = Inl e \<longrightarrow> transaction this fn s = (Inl e, s2\<lparr>table := table s\<rparr>))"
    if "\<not> isInsideTransaction this" "initializeObjectDatabase this s = (Inr (), s1)"
      "fn (derive this (tx_count s)) (s1\<lparr>tx_count := Suc (tx_count s)\<rparr>) = (r, s2)"
    for s1 r s2
    using transaction_root[OF that(1,2), of fn] that(3) by simp
  with transaction_nested[of this fn s] show ?thesis by blast
qed

theorem transaction_commit_or_abort_witness:
  "\<not> isInsideTransaction example_db
   \<and> initializeObjectDatabase example_db new_state = (Inr (), created_state)
   \<and> put_mvila (derive example_db 0) (created_state\<lparr>tx_count := Suc 0\<rparr>)
      = (Inr (), stocked_state\<lparr>tx_count := Suc 0\<rparr>)
   \<and> transaction example_db put_mvila new_state = (Inr (), stocked_state\<lparr>tx_count := Suc 0\<rparr>)
   \<and> failing_body (derive example_db 0) (created_state\<lparr>tx_count := Suc 0\<rparr>)
      = (Inl (Raised ''something wrong''), stocked_state\<lparr>tx_count := Suc 0\<rparr>)
   \<and> transaction example_db failing_body new_state
      = (Inl (Raised ''something wrong''), created_state\<lparr>tx_count := Suc 0\<rparr>)
   \<and> table (created_state\<lparr>tx_count := Suc 0\<rparr>) = []"
proof -
  have z: "tx_count new_state = 0"
    by (simp add: new_state_def)
  have out: "\<not> isInsideTransaction example_db"
    by (simp add: isInsideTransaction_def example_db_def)
  note commit = transaction_commit_or_abort[of example_db new_state put_mvila, THEN conjunct1,
      rule_format, OF out initialize_new_state, unfolded z, OF put_mvila_nested, THEN conjunct1,
      rule_format, OF refl]
  note abort = transaction_commit_or_abort[of example_db new_state failing_body, THEN conjunct1,
      rule_format, OF out initialize_new_state, unfolded z, OF failing_body_nested,
      THEN conjunct2, rule_format, OF refl]
  have t: "stocked_state\<lparr>tx_count := Suc 0, table := table new_state\<rparr>
      = created_state\<lparr>tx_count := Suc 0\<rparr>"
    by (simp add: stocked_state_def created_state_def new_state_def)
  have e: "table (created_state\<lparr>tx_count := Suc 0\<rparr>) = []"
    by (simp add: created_state_def new_state_def)
  from out initialize_new_state put_mvila_nested commit failing_body_nested abort[unfolded t] e
  show ?thesis by (intro conjI)
qed

text \<open>
  Claim C2 as stated fails for a function passed to \<^verbatim>\<open>transaction\<close> on an object that is
  inside a transaction: the function stores an item and throws, the call re-raises the
  error, and the item is in the table after the call; when the enclosing body catches
  the error and returns, the enclosing transaction commits and \<^verbatim>\<open>getItem\<close> on the root
  finds the item.
\<close>

theorem transaction_nested_raise_counterexample:
  "isInsideTransaction (derive example_db 0)
   \<and> transaction (derive example_db 0) failing_body (created_state\<lparr>tx_count := Suc 0\<rparr>)
      = (Inl (Raised ''something wrong''), stocked_state\<lparr>tx_count := Suc 0\<rparr>)
   \<and> map_of (table (stocked_state\<lparr>tx_count := Suc 0\<rparr>)) ''mvila''
      = Some (mvila @ [(''_classes'', VArr [VStr ''Account'', VStr ''Person''])])
   \<and> transaction example_db catching_body new_state = (Inr (), stocked_state\<lparr>tx_count := Suc 0\<rparr>)
   \<and> getItem example_db ''Person'' ''mvila'' no_options (stocked_state\<lparr>tx_count := Suc 0\<rparr>)
      = (Inr (Some \<lparr>item_classes = VArr [VStr ''Account'', VStr ''Person''], item_value = mvila\<rparr>),
         stocked_state\<lparr>tx_count := Suc 0\<rparr>)"
proof -
  have inside: "isInsideTransaction (derive example_db 0)"
    by (simp add: isInsideTransaction_def derive_def example_db_def)
  have out: "\<not> isInsideTransaction example_db"
    by (simp add: isInsideTransaction_def example_db_def)
  have inner: "transaction (derive example_db 0) failing_body (created_state\<lparr>tx_count := Suc 0\<rparr>)
      = (Inl (Raised ''something wrong''), stocked_state\<lparr>tx_count := Suc 0\<rparr>)"
    by (simp add: transaction_nested[OF inside] failing_body_nested)
  have stored: "map_of (table (stocked_state\<lparr>tx_count := Suc 0\<rparr>)) ''mvila''
      = Some (mvila @ [(''_classes'', VArr [VStr ''Account'', VStr ''Person''])])"
    by (simp add: stocked_state_def)
  have outer: "transaction example_db catching_body new_state
      = (Inr (), stocked_state\<lparr>tx_count := Suc 0\<rparr>)"
    using transaction_root[OF out initialize_new_state, of catching_body]
    by (simp add: new_state_def catching_body_def inner)
  have ready: "initializeObjectDatabase example_db (stocked_state\<lparr>tx_count := Suc 0\<rparr>)
      = (Inr (), stocked_state\<lparr>tx_count := Suc 0\<rparr>)"
    by (rule initialize_ready) (simp add: stocked_state_def created_state_def new_state_def)
  have p: "''Person'' \<noteq> []" by simp
  have read: "getItem example_db ''Person'' ''mvila'' no_options (stocked_state\<lparr>tx_count := Suc 0\<rparr>)
      = (Inr (Some \<lparr>item_classes = VArr [VStr ''Account'', VStr ''Person''], item_value = mvila\<rparr>),
         stocked_state\<lparr>tx_count := Suc 0\<rparr>)"
    using getItem_after_init[OF p ready, of "''mvila''" no_options]
    by (simp add: stocked_state_def attr_def omit_def mvila_def AList.delete_eq)
  from inside inner stored outer read show ?thesis by (intro conjI)
qed

section \<open>The options object\<close>





section \<open>Finding and deleting\<close>

lemma components_of_class:
  "set (concat (map idx_properties (spec_class_indexes c))) =
     insert (membership_predicate (class_name c))
       (\<Union>d\<in>set (declared_indexes c). set (declared_properties d))"
proof -
  have "set (concat (map idx_properties (map (spec_index (class_name c)) ds))) \<subseteq>
      insert (membership_predicate (class_name c)) (\<Union>d\<in>set ds. set (declared_properties d))"
    and "(\<Union>d\<in>set ds. set (declared_properties d)) \<subseteq>
      set (concat (map idx_properties (map (spec_index (class_name c)) ds)))" for ds
    by (induction ds) (auto simp: spec_index_def)
  from this[of "declared_indexes c"] show ?thesis
    by (auto simp: spec_class_indexes_def)
qed

lemma components_of_declarations:
  "set (concat (map idx_properties (build_indexes classes))) =
     (\<Union>c\<in>set classes. insert (membership_predicate (class_name c))
        (\<Union>d\<in>set (declared_indexes c). set (declared_properties d)))"
proof -
  have "set (concat (map idx_properties (build_indexes classes))) =
      (\<Union>c\<in>set classes. set (concat (map idx_properties (spec_class_indexes c))))"
    by (simp add: build_indexes_def foldl_add_class)
  also have "\<dots> = (\<Union>c\<in>set classes. insert (membership_predicate (class_name c))
        (\<Union>d\<in>set (declared_indexes c). set (declared_properties d)))"
    by (simp only: components_of_class)
  finally show ?thesis .
qed

lemma find_derived_declared:
  assumes "klass \<in> class_name ` set classes"
    and "makeIndexName klass \<notin> set (declared_function_names classes)"
  shows "find_derived (concat (map idx_properties (build_indexes classes))) (makeIndexName klass)
           = Some (class_fn klass)"
proof (rule find_derived_unique)
  from assms(1) obtain c where "c \<in> set classes" "class_name c = klass"
    by auto
  then have "membership_predicate klass \<in> set (concat (map idx_properties (build_indexes classes)))"
    unfolding components_of_declarations by blast
  then show "Derived (makeIndexName klass) (class_fn klass)
      \<in> set (concat (map idx_properties (build_indexes classes)))"
    by (simp add: membership_predicate_def)
next
  show "\<forall>g. Derived (makeIndexName klass) g
          \<in> set (concat (map idx_properties (build_indexes classes))) \<longrightarrow> g = class_fn klass"
  proof (intro allI impI)
    fix g
    assume "Derived (makeIndexName klass) g
        \<in> set (concat (map idx_properties (build_indexes classes)))"
    then obtain c where c: "c \<in> set classes"
      and g: "Derived (makeIndexName klass) g = membership_predicate (class_name c)
              \<or> (\<exists>d\<in>set (declared_indexes c).
                    Derived (makeIndexName klass) g \<in> set (declared_properties d))"
      unfolding components_of_declarations by blast
    from g show "g = class_fn klass"
    proof
      assume "Derived (makeIndexName klass) g = membership_predicate (class_name c)"
      then show ?thesis
        by (simp add: membership_predicate_def makeIndexName_def)
    next
      assume "\<exists>d\<in>set (declared_indexes c).
          Derived (makeIndexName klass) g \<in> set (declared_properties d)"
      then obtain d where d: "d \<in> set (declared_indexes c)"
        and m: "Derived (makeIndexName klass) g \<in> set (declared_properties d)"
        by blast
      from derived_names_mem[OF m] c d
      have "makeIndexName klass \<in> set (declared_function_names classes)"
        unfolding declared_function_names_def derived_names_concat by auto
      with assms(2) show ?thesis by simp
    qed
  qed
qed

text \<open>
  Claim C5. On a database whose lazy initialisation succeeds and whose table holds each
  key once and only records whose class list is an array, for a class that is among the
  declared ones (and whose index name no declaration gives to a function of its own)
  and options that carry only a query, \<^verbatim>\<open>findAndDeleteItems(class, options)\<close> returns the
  number of items that carry the class in their class list and satisfy the caller's
  query, leaves in the table exactly the items that do not (so the table is shorter by
  the number returned), and returns \<open>0\<close> when it is called again with the same options
  right after.
\<close>

theorem findAndDeleteItems_exact:
  assumes "klass \<noteq> []" and "initializeObjectDatabase this s = (Inr (), s1)"
    and "options_heap s r = Some opts"
    and "query_only opts" and "distinct (map fst (table s))"
    and "\<forall>x\<in>set (table s). \<exists>cs. attr (snd x) ''_classes'' = VArr cs"
    and "db_indexes this = build_indexes classes" and "klass \<in> class_name ` set classes"
    and "makeIndexName klass \<notin> set (declared_function_names classes)"
    and "q0 = (case fo_query opts of Some q \<Rightarrow> query_at s q | None \<Rightarrow> [])"
    and "distinct (map fst q0)"
    and "findAndDeleteItems modelled_store this klass (Some r) s = (res, s')"
  shows "res = Inr (length (filter (\<lambda>x. class_scoped (db_indexes this) klass q0 (snd x)) (table s)))
       \<and> table s' = filter (\<lambda>x. \<not> class_scoped (db_indexes this) klass q0 (snd x)) (table s)
       \<and> length (table s') + length (filter (\<lambda>x. class_scoped (db_indexes this) klass q0 (snd x))
                                       (table s)) = length (table s)
       \<and> fst (findAndDeleteItems modelled_store this klass (Some r) s') = Inr 0"
proof -
  let ?P = "\<lambda>x. satisfies (db_indexes this) (injected_query klass opts s) (snd x)"
  let ?Q = "\<lambda>x. class_scoped (db_indexes this) klass q0 (snd x)"
  obtain ri si where inj: "injectClassInQueryOption klass (Some r) s = (ri, si)"
    by (cases "injectClassInQueryOption klass (Some r) s")
  note f = inject_supplied_facts[OF assms(1,3) inj]
  let ?s2 = "with_heap (options_heap si) (query_heap si) (next_ref si) s1"
  from assms(4) have lim: "fo_limit opts = None"
    by (simp add: query_only_def)
  from findAndDelete_result[OF assms(1,2,3) lim assms(5) inj] assms(12)
  have res: "res = Inr (length (filter ?P (table s)))"
    and s': "s' = ?s2\<lparr>table := filter (\<lambda>x. \<not> ?P x) (table s)\<rparr>"
    by simp_all
  let ?opts = "opts\<lparr>fo_query := Some (injected_ref opts s)\<rparr>"
  have i': "initializeObjectDatabase this s' = (Inr (), s')"
    by (rule initialize_again[OF assms(2)]) (simp_all add: s' with_heap_def)
  have o': "options_heap s' r = Some ?opts"
    and h': "query_heap s' (injected_ref opts s) = Some (injected_query klass opts s)"
    and l': "fo_limit ?opts = None" and d': "distinct (map fst (table s'))"
    using f(3,4) assms(5) lim by (simp_all add: s' with_heap_def distinct_map_filter)
  obtain ri' si' where inj': "injectClassInQueryOption klass (Some r) s' = (ri', si')"
    by (cases "injectClassInQueryOption klass (Some r) s'")
  have q': "injected_query klass ?opts s' = injected_query klass opts s"
    using h' by (intro injected_query_again) simp_all
  have again: "fst (findAndDeleteItems modelled_store this klass (Some r) s') = Inr 0"
    unfolding findAndDelete_result[OF assms(1) i' o' l' d' inj'] q'
    by (simp add: s')
  have declared: "find_derived (concat (map idx_properties (db_indexes this))) (makeIndexName klass)
      = Some (class_fn klass)"
    unfolding assms(7) by (rule find_derived_declared[OF assms(8,9)])
  have same: "?P x = ?Q x" if "x \<in> set (table s)" for x
  proof -
    from assms(6) that obtain cs where "attr (snd x) ''_classes'' = VArr cs"
      by blast
    then show ?thesis
      by (rule satisfies_injected[OF declared assms(10,11)])
  qed
  have yes: "filter ?P (table s) = filter ?Q (table s)"
    by (rule filter_cong[OF refl]) (rule same)
  have no: "filter (\<lambda>x. \<not> ?P x) (table s) = filter (\<lambda>x. \<not> ?Q x) (table s)"
    by (rule filter_cong[OF refl]) (simp add: same)
  have total: "length (filter (\<lambda>x. \<not> ?Q x) (table s)) + length (filter ?Q (table s))
      = length (table s)"
    using sum_length_filter_compl[of ?Q "table s"] by simp
  have t: "table s' = filter (\<lambda>x. \<not> ?Q x) (table s)"
    by (simp add: s' no)
  from res again total show ?thesis
    unfolding t yes by simp
qed

text \<open>
  The six items of the test all carry \<^verbatim>\<open>Account\<close>; \<^verbatim>\<open>ccc\<close> and \<^verbatim>\<open>fff\<close> carry \<^verbatim>\<open>Company\<close>;
  \<^verbatim>\<open>aaa\<close>, \<^verbatim>\<open>eee\<close> and \<^verbatim>\<open>fff\<close> are in France. Finding and deleting the companies in
  France deletes \<^verbatim>\<open>fff\<close> alone.
\<close>

theorem findAndDeleteItems_exact_witness:
  "''Company'' \<noteq> [] \<and> initializeObjectDatabase example_db test_state = (Inr (), test_state)
   \<and> options_heap test_state 0 = Some test_options \<and> query_only test_options
   \<and> map fst (table test_state) = [''aaa'', ''bbb'', ''ccc'', ''ddd'', ''eee'', ''fff'']
   \<and> map (\<lambda>x. attr (snd x) ''_classes'') (table test_state) =
       [VArr [VStr ''Account''], VArr [VStr ''Account'', VStr ''Person''],
        VArr [VStr ''Account'', VStr ''Company''], VArr [VStr ''Account'', VStr ''Person''],
        VArr [VStr ''Account'', VStr ''Person''], VArr [VStr ''Account'', VStr ''Company'']]
   \<and> map (\<lambda>x. attr (snd x) ''country'') (table test_state) =
       [VStr ''France'', VStr ''USA'', VStr ''China'', VStr ''USA'', VStr ''France'',
        VStr ''France'']
   \<and> db_indexes example_db = build_indexes (opt_classes example_options)
   \<and> ''Company'' \<in> class_name ` set (opt_classes example_options)
   \<and> makeIndexName ''Company'' \<notin> set (declared_function_names (opt_classes example_options))
   \<and> findAndDeleteItems modelled_store example_db ''Company'' (Some 0) test_state =
       (Inr 1,
        test_state\<lparr>query_heap :=
           [1 \<mapsto> [(''country'', VStr ''France''), (''Company?'', VBool True)]],
          table := butlast test_table\<rparr>)
   \<and> map fst (butlast test_table) = [''aaa'', ''bbb'', ''ccc'', ''ddd'', ''eee'']
   \<and> map fst (filter (\<lambda>x. class_scoped (db_indexes example_db) ''Company''
                           [(''country'', VStr ''France'')] (snd x)) (table test_state))
      = [''fff'']
   \<and> fst (findAndDeleteItems modelled_store example_db ''Company'' (Some 0)
         (test_state\<lparr>query_heap :=
            [1 \<mapsto> [(''country'', VStr ''France''), (''Company?'', VBool True)]],
           table := butlast test_table\<rparr>)) = Inr 0"
proof -
  have a: "''Company'' \<noteq> []" by simp
  note i = initialize_test_state
  have o: "options_heap test_state 0 = Some test_options"
    by (simp add: test_state_def)
  have qo: "query_only test_options"
    by (simp add: query_only_def test_options_def no_find_options_def)
  have ks: "map fst (table test_state) = [''aaa'', ''bbb'', ''ccc'', ''ddd'', ''eee'', ''fff'']"
    by (simp add: test_state_def test_table_def)
  then have d: "distinct (map fst (table test_state))"
    by simp
  have cl: "map (\<lambda>x. attr (snd x) ''_classes'') (table test_state) =
       [VArr [VStr ''Account''], VArr [VStr ''Account'', VStr ''Person''],
        VArr [VStr ''Account'', VStr ''Company''], VArr [VStr ''Account'', VStr ''Person''],
        VArr [VStr ''Account'', VStr ''Person''], VArr [VStr ''Account'', VStr ''Company'']]"
    by (simp add: test_state_def test_table_def attr_def)
  have co: "map (\<lambda>x. attr (snd x) ''country'') (table test_state) =
       [VStr ''France'', VStr ''USA'', VStr ''China'', VStr ''USA'', VStr ''France'',
        VStr ''France'']"
    by (simp add: test_state_def test_table_def attr_def)
  have wf: "\<forall>x\<in>set (table test_state). \<exists>cs. attr (snd x) ''_classes'' = VArr cs"
    by (simp add: test_state_def test_table_def attr_def)
  have ix: "db_indexes example_db = build_indexes (opt_classes example_options)"
    by (simp add: example_db_def)
  have dc: "''Company'' \<in> class_name ` set (opt_classes example_options)"
    by (simp add: example_options_def)
  have nf: "makeIndexName ''Company'' \<notin> set (declared_function_names (opt_classes example_options))"
    by (simp add: declared_function_names_def example_options_def)
  have q0: "[(''country'', VStr ''France'')]
      = (case fo_query test_options of Some q \<Rightarrow> query_at test_state q | None \<Rightarrow> [])"
    by (simp add: test_options_def query_at_def test_state_def)
  have dq: "distinct (map fst [(''country'', VStr ''France'')])"
    by simp
  have k: "map fst (butlast test_table) = [''aaa'', ''bbb'', ''ccc'', ''ddd'', ''eee'']"
    by (simp add: test_table_def)
  have sel: "map fst (filter (\<lambda>x. class_scoped (db_indexes example_db) ''Company''
                           [(''country'', VStr ''France'')] (snd x)) (table test_state))
      = [''fff'']"
    by (simp add: class_scoped_def carries_def satisfies_def example_key_values attr_def
        makeIndexName_def test_state_def test_table_def)
  note again = findAndDeleteItems_exact[OF a i o qo d wf ix dc nf q0 dq
      findAndDelete_test_state, THEN conjunct2, THEN conjunct2, THEN conjunct2]
  from a i o qo ks cl co ix dc nf findAndDelete_test_state k sel again show ?thesis
    by (intro conjI)
qed

end
